theory Spec2Isabelle
  imports Complex_Main "HOL-Library.Sublist"
begin

section \<open>Data model\<close>

text \<open>
  Numbers of the services are JavaScript doubles obtained with \<^verbatim>\<open>parseFloat\<close> from the
  fields of a Redis hash. They are embedded as the real numbers they denote: the fields
  of a position hash hold the parsed, finite values, and \<^verbatim>\<open>Math.sin\<close>, \<^verbatim>\<open>Math.cos\<close>,
  \<^verbatim>\<open>Math.sqrt\<close> and \<^verbatim>\<open>Math.atan2\<close> are the mathematical functions. The flag
  \<^verbatim>\<open>on_ground\<close> stays the string the hash holds, since the code compares it with
  \<^verbatim>\<open>'true'\<close>. Instants (\<^verbatim>\<open>Date.now()\<close>, \<^verbatim>\<open>new Date()\<close>) are milliseconds as
  natural numbers.

  The services wrap their bodies in \<^verbatim>\<open>try\<close>/\<^verbatim>\<open>catch\<close> for the errors of the database
  drivers. The embedding follows the calls to Redis, Neo4j and MongoDB where they return,
  but for the one query that the code runs on a session it has closed; the early returns of
  the code itself (fewer than two keys, no key, no schedule) are branches of the
  definitions.
\<close>

datatype severity = CRITICAL | HIGH | MEDIUM | SAFE

record position_hash =
  ph_callsign :: string
  ph_latitude :: real
  ph_longitude :: real
  ph_altitude :: real
  ph_velocity :: real
  ph_heading :: real
  ph_on_ground :: string
  ph_last_update :: string

text \<open>An element of the \<^verbatim>\<open>positions\<close> array that \<^verbatim>\<open>checkCollisionRisks\<close> builds.\<close>

record aircraft =
  ac_callsign :: string
  ac_latitude :: real
  ac_longitude :: real
  ac_altitude :: real
  ac_velocity :: real
  ac_heading :: real

record alert_position =
  ap_latitude :: real
  ap_longitude :: real
  ap_altitude :: real

record collision_alert =
  ca_id :: string
  ca_aircraft1 :: string
  ca_aircraft2 :: string
  ca_distance :: real
  ca_altitudeDiff :: int
  ca_severity :: severity
  ca_positions_aircraft1 :: alert_position
  ca_positions_aircraft2 :: alert_position
  ca_timestamp :: nat

record altitude_alert =
  aa_id :: string
  aa_callsign :: string
  aa_altitude :: real
  aa_latitude :: real
  aa_longitude :: real
  aa_velocity :: real
  aa_heading :: real
  aa_severity :: severity
  aa_message :: string
  aa_inAirportZone :: bool
  aa_airportName :: "string option"
  aa_zoneName :: "string option"
  aa_distanceToAirport :: "real option"
  aa_timestamp :: nat

subsection \<open>The Redis store\<close>

text \<open>
  A value written with \<^verbatim>\<open>JSON.stringify\<close> and read back with \<^verbatim>\<open>JSON.parse\<close> is the
  alert itself, tagged with its kind. The store holds the position hashes in the order in
  which \<^verbatim>\<open>KEYS\<close> lists them, the string keys with the expiry (seconds) given at
  \<^verbatim>\<open>SET\<close>, and the lists.
\<close>

datatype json = CollisionJson collision_alert | AltitudeJson altitude_alert

record redis =
  hashes :: "(string \<times> position_hash) list"
  strings :: "string \<rightharpoonup> json \<times> nat"
  lists :: "string \<Rightarrow> json list"

definition redis_set :: "redis \<Rightarrow> string \<Rightarrow> json \<Rightarrow> nat \<Rightarrow> redis" where
  "redis_set r key v ex = r\<lparr>strings := (strings r)(key \<mapsto> (v, ex))\<rparr>"

definition redis_get :: "redis \<Rightarrow> string \<Rightarrow> json option" where
  "redis_get r key = map_option fst (strings r key)"

definition redis_lPush :: "redis \<Rightarrow> string \<Rightarrow> json \<Rightarrow> redis" where
  "redis_lPush r key v = r\<lparr>lists := (lists r)(key := v # lists r key)\<rparr>"

text \<open>
  A range of a Redis list, as \<^verbatim>\<open>LRANGE\<close> and \<^verbatim>\<open>LTRIM\<close> compute it: a negative index
  counts from the end, a start before the list is its first element, a stop after the list
  is its last element, and a start after the stop or after the list gives the empty list.
\<close>

definition redis_index :: "nat \<Rightarrow> int \<Rightarrow> int" where
  "redis_index n i = (if i < 0 then int n + i else i)"

definition redis_range :: "json list \<Rightarrow> int \<Rightarrow> int \<Rightarrow> json list" where
  "redis_range xs start stop =
     (let n = length xs;
          s = max 0 (redis_index n start);
          e = min (redis_index n stop) (int n - 1)
      in if e < s \<or> int n \<le> s then [] else take (nat (e - s + 1)) (drop (nat s) xs))"

definition redis_lTrim :: "redis \<Rightarrow> string \<Rightarrow> int \<Rightarrow> int \<Rightarrow> redis" where
  "redis_lTrim r key start stop =
     r\<lparr>lists := (lists r)(key := redis_range (lists r key) start stop)\<rparr>"

definition redis_lRange :: "redis \<Rightarrow> string \<Rightarrow> int \<Rightarrow> int \<Rightarrow> json list" where
  "redis_lRange r key start stop = redis_range (lists r key) start stop"

text \<open>
  \<^verbatim>\<open>KEYS\<close> returns the keys that match a glob-style pattern: \<^verbatim>\<open>*\<close> stands for any run of
  characters, \<^verbatim>\<open>?\<close> for one character, \<^verbatim>\<open>[...]\<close> for one character of a class (a leading
  \<^verbatim>\<open>^\<close> negates it, \<^verbatim>\<open>a-z\<close> is a range), and a backslash takes the next character
  as it is. \<open>bracket\<close> reads a class up to its \<^verbatim>\<open>]\<close> against the character \<open>c\<close> and returns
  whether some member matched, with the rest of the pattern.
\<close>

definition in_range :: "char \<Rightarrow> char \<Rightarrow> char \<Rightarrow> bool" where
  "in_range lo hi c \<longleftrightarrow>
     (let s = (of_char lo :: nat); e = of_char hi; v = of_char c
      in min s e \<le> v \<and> v \<le> max s e)"

fun bracket :: "string \<Rightarrow> char \<Rightarrow> bool \<Rightarrow> bool \<times> string" where
  "bracket [] c m = (m, [])"
| "bracket [x] c m = (if x = CHR '']'' then (m, []) else (m \<or> x = c, []))"
| "bracket (x # y # p) c m =
     (if x = CHR 0x5C then bracket p c (m \<or> y = c)
      else if x = CHR '']'' then (m, y # p)
      else if y = CHR ''-'' \<and> p \<noteq> [] then bracket (tl p) c (m \<or> in_range x (hd p) c)
      else bracket (y # p) c (m \<or> x = c))"

function stringmatch :: "string \<Rightarrow> string \<Rightarrow> bool" where
  "stringmatch [] s = (s = [])"
| "stringmatch (c # p) [] = (c = CHR ''*'' \<and> stringmatch p [])"
| "stringmatch (c # p) (x # s) =
     (if c = CHR ''*'' then stringmatch p (x # s) \<or> stringmatch (c # p) s
      else if c = CHR ''?'' then stringmatch p s
      else if c = CHR ''['' then
        (let negated = (p \<noteq> [] \<and> hd p = CHR ''^'');
             body = (if negated then tl p else p)
         in fst (bracket body x False) \<noteq> negated \<and>
            stringmatch (snd (bracket body x False)) s)
      else if c = CHR 0x5C \<and> p \<noteq> [] then hd p = x \<and> stringmatch (tl p) s
      else c = x \<and> stringmatch p s)"
  by pat_completeness auto
termination
proof (relation "measure (\<lambda>(p, s). length p + length s)", goal_cases)
  case (6 c p x s negated body)
  have "length (snd (bracket b x m)) \<le> length b" for b m
    by (induction b x m rule: bracket.induct) (auto simp: le_SucI)
  then have "length (snd (bracket body x False)) \<le> length body" .
  moreover have "length body \<le> length p" using 6 by (cases p) auto
  ultimately show ?case by simp
next
  case (7 c p x s)
  then show ?case by (cases p) auto
qed simp_all

definition redis_keys :: "redis \<Rightarrow> string \<Rightarrow> string list" where
  "redis_keys r pattern = map fst (filter (\<lambda>(k, h). stringmatch pattern k) (hashes r))"

definition redis_hGetAll :: "redis \<Rightarrow> string \<Rightarrow> position_hash option" where
  "redis_hGetAll r key = map_of (hashes r) key"

text \<open>Decimal rendering of an instant inside a template literal.\<close>

fun nat_to_string :: "nat \<Rightarrow> string" where
  "nat_to_string n =
     (if n < 10 then [''0123456789'' ! n]
      else nat_to_string (n div 10) @ [''0123456789'' ! (n mod 10)])"

declare nat_to_string.simps [simp del]

section \<open>Collision detection service\<close>

record collision_service =
  SAFE_DISTANCE_KM :: real
  SAFE_ALTITUDE_DIFF_FT :: real

text \<open>The constructor with no environment override.\<close>

definition collisionService :: collision_service where
  "collisionService = \<lparr>SAFE_DISTANCE_KM = 5, SAFE_ALTITUDE_DIFF_FT = 1000\<rparr>"

definition toRad :: "real \<Rightarrow> real" where
  "toRad degrees = degrees * pi / 180"

text \<open>\<^verbatim>\<open>Math.atan2(y, x)\<close> on finite arguments.\<close>

definition atan2 :: "real \<Rightarrow> real \<Rightarrow> real" where
  "atan2 y x =
     (if 0 < x then arctan (y / x)
      else if x < 0 then (if 0 \<le> y then arctan (y / x) + pi else arctan (y / x) - pi)
      else if 0 < y then pi / 2
      else if y < 0 then - (pi / 2)
      else 0)"

definition calculateDistance :: "real \<Rightarrow> real \<Rightarrow> real \<Rightarrow> real \<Rightarrow> real" where
  "calculateDistance lat1 lon1 lat2 lon2 =
     (let R = 6371;
          dLat = toRad (lat2 - lat1);
          dLon = toRad (lon2 - lon1);
          a = sin (dLat / 2) * sin (dLat / 2) +
              cos (toRad lat1) * cos (toRad lat2) *
              sin (dLon / 2) * sin (dLon / 2);
          c = 2 * atan2 (sqrt a) (sqrt (1 - a))
      in R * c)"

definition collision_calculateSeverity :: "real \<Rightarrow> real \<Rightarrow> severity" where
  "collision_calculateSeverity distance altitudeDiff =
     (if distance < 2 \<and> altitudeDiff < 500 then CRITICAL
      else if distance < 3 \<and> altitudeDiff < 700 then HIGH
      else MEDIUM)"

text \<open>\<^verbatim>\<open>parseFloat(x.toFixed(2))\<close>: the nearest multiple of 0.01, a tie going away from zero.\<close>

definition toFixed2 :: "real \<Rightarrow> real" where
  "toFixed2 x =
     (if x < 0 then - (real_of_int \<lfloor>- x * 100 + 1 / 2\<rfloor> / 100)
      else real_of_int \<lfloor>x * 100 + 1 / 2\<rfloor> / 100)"

text \<open>\<^verbatim>\<open>Math.round\<close>: the nearest integer, a tie going up.\<close>

definition Math_round :: "real \<Rightarrow> int" where
  "Math_round x = \<lfloor>x + 1 / 2\<rfloor>"

definition checkPairCollision ::
  "collision_service \<Rightarrow> nat \<Rightarrow> aircraft \<Rightarrow> aircraft \<Rightarrow> collision_alert option" where
  "checkPairCollision this now aircraft1 aircraft2 =
     (let distance = calculateDistance (ac_latitude aircraft1) (ac_longitude aircraft1)
                       (ac_latitude aircraft2) (ac_longitude aircraft2);
          altitudeDiff = \<bar>ac_altitude aircraft1 - ac_altitude aircraft2\<bar>
      in if distance < SAFE_DISTANCE_KM this \<and> altitudeDiff < SAFE_ALTITUDE_DIFF_FT this
         then let severity = collision_calculateSeverity distance altitudeDiff
              in Some \<lparr>ca_id = ac_callsign aircraft1 @ ''-'' @ ac_callsign aircraft2 @ ''-''
                                 @ nat_to_string now,
                       ca_aircraft1 = ac_callsign aircraft1,
                       ca_aircraft2 = ac_callsign aircraft2,
                       ca_distance = toFixed2 distance,
                       ca_altitudeDiff = Math_round altitudeDiff,
                       ca_severity = severity,
                       ca_positions_aircraft1 =
                         \<lparr>ap_latitude = ac_latitude aircraft1,
                          ap_longitude = ac_longitude aircraft1,
                          ap_altitude = ac_altitude aircraft1\<rparr>,
                       ca_positions_aircraft2 =
                         \<lparr>ap_latitude = ac_latitude aircraft2,
                          ap_longitude = ac_longitude aircraft2,
                          ap_altitude = ac_altitude aircraft2\<rparr>,
                       ca_timestamp = now\<rparr>
         else None)"

definition collision_storeAlert :: "redis \<Rightarrow> collision_alert \<Rightarrow> redis" where
  "collision_storeAlert r alert =
     (let key = ''alert:collision:'' @ ca_id alert;
          r1 = redis_set r key (CollisionJson alert) 300;
          r2 = redis_lPush r1 ''alerts:collision:active'' (CollisionJson alert)
      in redis_lTrim r2 ''alerts:collision:active'' 0 99)"

definition collision_getActiveAlerts :: "redis \<Rightarrow> json list" where
  "collision_getActiveAlerts r = redis_lRange r ''alerts:collision:active'' 0 (- 1)"

text \<open>
  The first loop of \<^verbatim>\<open>checkCollisionRisks\<close>: every key is read with \<^verbatim>\<open>hGetAll\<close>, and the
  rows that pass \<^verbatim>\<open>data && data.callsign && data.on_ground !== 'true'\<close> are pushed, in the
  order of the keys. A key with no hash reads as the empty object and is skipped.
\<close>

definition readPositions :: "redis \<Rightarrow> string list \<Rightarrow> aircraft list" where
  "readPositions r keys =
     List.map_filter
       (\<lambda>key. case redis_hGetAll r key of
                 None \<Rightarrow> None
               | Some data \<Rightarrow>
                   if ph_callsign data \<noteq> [] \<and> ph_on_ground data \<noteq> ''true''
                   then Some \<lparr>ac_callsign = ph_callsign data,
                              ac_latitude = ph_latitude data,
                              ac_longitude = ph_longitude data,
                              ac_altitude = ph_altitude data,
                              ac_velocity = ph_velocity data,
                              ac_heading = ph_heading data\<rparr>
                   else None)
       keys"

text \<open>
  The two nested loops of \<^verbatim>\<open>checkCollisionRisks\<close>. The inner loop compares
  \<^verbatim>\<open>positions[i]\<close> with every later element; \<open>clock i j\<close> is the reading of the clock when
  the pair \<open>(i, j)\<close> is compared. The state is the array \<^verbatim>\<open>alerts\<close> and the store.
\<close>

fun innerLoop ::
  "collision_service \<Rightarrow> (nat \<Rightarrow> nat \<Rightarrow> nat) \<Rightarrow> nat \<Rightarrow> nat \<Rightarrow> aircraft \<Rightarrow> aircraft list \<Rightarrow>
   collision_alert list \<times> redis \<Rightarrow> collision_alert list \<times> redis" where
  "innerLoop this clock i j p [] (alerts, r) = (alerts, r)"
| "innerLoop this clock i j p (q # qs) (alerts, r) =
     (case checkPairCollision this (clock i j) p q of
        None \<Rightarrow> innerLoop this clock i (Suc j) p qs (alerts, r)
      | Some alert \<Rightarrow>
          innerLoop this clock i (Suc j) p qs (alerts @ [alert], collision_storeAlert r alert))"

fun outerLoop ::
  "collision_service \<Rightarrow> (nat \<Rightarrow> nat \<Rightarrow> nat) \<Rightarrow> nat \<Rightarrow> aircraft list \<Rightarrow>
   collision_alert list \<times> redis \<Rightarrow> collision_alert list \<times> redis" where
  "outerLoop this clock i [] (alerts, r) = (alerts, r)"
| "outerLoop this clock i (p # ps) (alerts, r) =
     outerLoop this clock (Suc i) ps (innerLoop this clock i (Suc i) p ps (alerts, r))"

definition checkCollisionRisks ::
  "collision_service \<Rightarrow> (nat \<Rightarrow> nat \<Rightarrow> nat) \<Rightarrow> redis \<Rightarrow> collision_alert list \<times> redis" where
  "checkCollisionRisks this clock r =
     (let keys = redis_keys r ''aircraft:*:position''
      in if length keys < 2 then ([], r)
         else outerLoop this clock 0 (readPositions r keys) ([], r))"


section \<open>Altitude check service\<close>

record altitude_service =
  MIN_SAFE_ALTITUDE_FT :: real

definition altitudeCheckService :: altitude_service where
  "altitudeCheckService = \<lparr>MIN_SAFE_ALTITUDE_FT = 1000\<rparr>"

subsection \<open>The graph database\<close>

text \<open>
  The graph is given by the matches of the patterns the queries use: the airports, the
  pairs of \<^verbatim>\<open>(a:Airport)-[:HAS_ZONE]->(z:Zone)\<close>, the rows of
  \<^verbatim>\<open>(f:Flight)-[:ASSIGNED_TO]->(g:Gate)-[:BELONGS_TO]->(t:Terminal)\<close>, and the records of
  the gate-status query. \<open>point_distance\<close> is the database's \<^verbatim>\<open>point.distance\<close>, in
  metres, between two points given as latitude and longitude. The driver calls are taken
  on the path where they return.
\<close>

record airport =
  apt_name :: string
  apt_code :: string
  apt_latitude :: real
  apt_longitude :: real

record zone =
  z_name :: string
  z_latitude :: real
  z_longitude :: real
  z_radiusMeters :: real

record gate_record =
  gr_gate :: string
  gr_terminal :: string
  gr_status :: "string option"
  gr_occupiedBy :: "string option"
  gr_capacity :: "nat option"

record neo4j =
  point_distance :: "real \<Rightarrow> real \<Rightarrow> real \<Rightarrow> real \<Rightarrow> real"
  airports :: "airport list"
  has_zone :: "(airport \<times> zone) list"
  assigned_to :: "(string \<times> string \<times> string) list"
  gate_records :: "gate_record list"

record zone_info =
  zi_inZone :: bool
  zi_airportName :: "string option"
  zi_airportCode :: "string option"
  zi_zoneName :: "string option"
  zi_distance :: "real option"

text \<open>\<^verbatim>\<open>ORDER BY distance LIMIT 1\<close>: the first row of least distance.\<close>

fun nearest :: "('a \<times> real) list \<Rightarrow> ('a \<times> real) option" where
  "nearest [] = None"
| "nearest (x # xs) =
     (case nearest xs of
        None \<Rightarrow> Some x
      | Some y \<Rightarrow> if snd x \<le> snd y then Some x else Some y)"

text \<open>
  \<^verbatim>\<open>getAirportZoneInfo\<close> closes its session after the zone query. When a zone contains the
  point it returns from that result. When none does, the code goes on to run the
  nearest-airport query on the session it has closed; the driver refuses a closed session,
  the \<^verbatim>\<open>catch\<close> block takes over, and the function returns the record with no name and no
  distance.
\<close>

definition getAirportZoneInfo :: "neo4j \<Rightarrow> real \<Rightarrow> real \<Rightarrow> zone_info" where
  "getAirportZoneInfo db latitude longitude =
     (let result =
            filter (\<lambda>((a, z), distance). distance < z_radiusMeters z)
              (map (\<lambda>(a, z). ((a, z),
                      point_distance db latitude longitude (z_latitude z) (z_longitude z)))
                   (has_zone db))
      in case nearest result of
           Some ((a, z), distance) \<Rightarrow>
             \<lparr>zi_inZone = True,
              zi_airportName = Some (apt_name a),
              zi_airportCode = Some (apt_code a),
              zi_zoneName = Some (z_name z),
              zi_distance = Some (toFixed2 (distance / 1000))\<rparr>
         | None \<Rightarrow>
             \<lparr>zi_inZone = False,
              zi_airportName = None,
              zi_airportCode = None,
              zi_zoneName = None,
              zi_distance = None\<rparr>)"

definition altitude_calculateSeverity :: "real \<Rightarrow> severity" where
  "altitude_calculateSeverity altitude =
     (if altitude < 500 then CRITICAL
      else if altitude < 750 then HIGH
      else MEDIUM)"

definition altitude_storeAlert :: "redis \<Rightarrow> altitude_alert \<Rightarrow> redis" where
  "altitude_storeAlert r alert =
     (let key = ''alert:low-altitude:'' @ aa_id alert;
          r1 = redis_set r key (AltitudeJson alert) 300;
          r2 = redis_lPush r1 ''alerts:altitude:active'' (AltitudeJson alert)
      in redis_lTrim r2 ''alerts:altitude:active'' 0 99)"

record aircraft_info =
  ai_callsign :: string
  ai_altitude :: real
  ai_latitude :: real
  ai_longitude :: real
  ai_velocity :: real
  ai_heading :: real
  ai_inAirportZone :: bool
  ai_airportName :: "string option"
  ai_zoneName :: "string option"
  ai_distanceToAirport :: "real option"

record altitude_result =
  res_alerts :: "altitude_alert list"
  res_totalAircraft :: nat
  res_monitoredAircraft :: "aircraft_info list"

text \<open>\<^verbatim>\<open>parseFloat(x) || 0\<close> on a parsed value.\<close>

definition or_zero :: "real \<Rightarrow> real" where
  "or_zero x = (if x = 0 then 0 else x)"

text \<open>A nullable name inside a template literal.\<close>

definition template :: "string option \<Rightarrow> string" where
  "template v = (case v of None \<Rightarrow> ''null'' | Some s \<Rightarrow> s)"

text \<open>
  The loop of \<^verbatim>\<open>checkLowAltitudeAircraft\<close> over the keys; \<open>clock n\<close> is the reading of the
  clock while the \<open>n\<close>-th key is processed. The state is the two arrays
  \<^verbatim>\<open>lowAltitudeAlerts\<close> and \<^verbatim>\<open>allAircraft\<close>, and the store.
\<close>

fun altitudeLoop ::
  "altitude_service \<Rightarrow> neo4j \<Rightarrow> (nat \<Rightarrow> nat) \<Rightarrow> nat \<Rightarrow> string list \<Rightarrow>
   altitude_alert list \<times> aircraft_info list \<times> redis \<Rightarrow>
   altitude_alert list \<times> aircraft_info list \<times> redis" where
  "altitudeLoop this db clock n [] (lowAltitudeAlerts, allAircraft, r) =
     (lowAltitudeAlerts, allAircraft, r)"
| "altitudeLoop this db clock n (key # keys) (lowAltitudeAlerts, allAircraft, r) =
     (case redis_hGetAll r key of
        None \<Rightarrow> altitudeLoop this db clock (Suc n) keys (lowAltitudeAlerts, allAircraft, r)
      | Some data \<Rightarrow>
          if ph_callsign data = [] \<or> ph_on_ground data = ''true''
          then altitudeLoop this db clock (Suc n) keys (lowAltitudeAlerts, allAircraft, r)
          else
            let callsign = ph_callsign data;
                altitude = ph_altitude data;
                latitude = ph_latitude data;
                longitude = ph_longitude data;
                velocity = or_zero (ph_velocity data);
                heading = or_zero (ph_heading data);
                airportZoneInfo = getAirportZoneInfo db latitude longitude;
                aircraftInfo =
                  \<lparr>ai_callsign = callsign,
                   ai_altitude = altitude,
                   ai_latitude = latitude,
                   ai_longitude = longitude,
                   ai_velocity = velocity,
                   ai_heading = heading,
                   ai_inAirportZone = zi_inZone airportZoneInfo,
                   ai_airportName = zi_airportName airportZoneInfo,
                   ai_zoneName = zi_zoneName airportZoneInfo,
                   ai_distanceToAirport = zi_distance airportZoneInfo\<rparr>
            in if altitude < MIN_SAFE_ALTITUDE_FT this
               then
                 if \<not> zi_inZone airportZoneInfo
                 then
                   let alert =
                         \<lparr>aa_id = callsign @ ''-'' @ nat_to_string (clock n),
                          aa_callsign = callsign,
                          aa_altitude = altitude,
                          aa_latitude = latitude,
                          aa_longitude = longitude,
                          aa_velocity = velocity,
                          aa_heading = heading,
                          aa_severity = altitude_calculateSeverity altitude,
                          aa_message =
                            ''Aircraft flying below safe altitude outside airport zone'',
                          aa_inAirportZone = False,
                          aa_airportName = None,
                          aa_zoneName = None,
                          aa_distanceToAirport = zi_distance airportZoneInfo,
                          aa_timestamp = clock n\<rparr>
                   in altitudeLoop this db clock (Suc n) keys
                        (lowAltitudeAlerts @ [alert], allAircraft @ [aircraftInfo],
                         altitude_storeAlert r alert)
                 else
                   let alert =
                         \<lparr>aa_id = callsign @ ''-'' @ nat_to_string (clock n),
                          aa_callsign = callsign,
                          aa_altitude = altitude,
                          aa_latitude = latitude,
                          aa_longitude = longitude,
                          aa_velocity = velocity,
                          aa_heading = heading,
                          aa_severity = SAFE,
                          aa_message =
                            ''Aircraft in '' @ template (zi_airportName airportZoneInfo)
                            @ '' '' @ template (zi_zoneName airportZoneInfo)
                            @ '' - Normal operations'',
                          aa_inAirportZone = True,
                          aa_airportName = zi_airportName airportZoneInfo,
                          aa_zoneName = zi_zoneName airportZoneInfo,
                          aa_distanceToAirport = zi_distance airportZoneInfo,
                          aa_timestamp = clock n\<rparr>
                   in altitudeLoop this db clock (Suc n) keys
                        (lowAltitudeAlerts @ [alert], allAircraft @ [aircraftInfo], r)
               else altitudeLoop this db clock (Suc n) keys
                      (lowAltitudeAlerts, allAircraft @ [aircraftInfo], r))"

definition checkLowAltitudeAircraft ::
  "altitude_service \<Rightarrow> neo4j \<Rightarrow> (nat \<Rightarrow> nat) \<Rightarrow> redis \<Rightarrow> altitude_result \<times> redis" where
  "checkLowAltitudeAircraft this db clock r =
     (let keys = redis_keys r ''aircraft:*:position'';
          (lowAltitudeAlerts, allAircraft, r') = altitudeLoop this db clock 0 keys ([], [], r)
      in (\<lparr>res_alerts = lowAltitudeAlerts,
           res_totalAircraft = length allAircraft,
           res_monitoredAircraft = allAircraft\<rparr>, r'))"

text \<open>
  The active-alert query of the altitude service: it runs the check again and returns its
  result; it does not read the list \<^verbatim>\<open>alerts:altitude:active\<close>.
\<close>

definition altitude_getActiveAlerts ::
  "altitude_service \<Rightarrow> neo4j \<Rightarrow> (nat \<Rightarrow> nat) \<Rightarrow> redis \<Rightarrow> altitude_result \<times> redis" where
  "altitude_getActiveAlerts this db clock r = checkLowAltitudeAircraft this db clock r"

section \<open>Flight monitor service\<close>

text \<open>
  A schedule document of the collection \<^verbatim>\<open>flight_schedules\<close>, with the fields the service
  reads: the flight number, \<^verbatim>\<open>aircraft.registration\<close> and the status. A field that a
  document lacks is \<open>None\<close>.
\<close>

record schedule =
  s_flightNumber :: string
  s_registration :: "string option"
  s_status :: "string option"

record mongodb =
  flight_schedules :: "schedule list"

record position =
  p_latitude :: real
  p_longitude :: real
  p_altitude :: real
  p_velocity :: real
  p_heading :: real

record flight =
  f_callsign :: string
  f_position :: position
  f_on_ground :: bool
  f_gate :: "string option"
  f_terminal :: "string option"
  f_status :: string
  f_schedule :: "schedule option"
  f_last_update :: string

text \<open>
  The two shapes of object that \<^verbatim>\<open>getFlightDetails\<close> returns: the live view, and the view
  built from the schedule alone, whose \<^verbatim>\<open>position\<close> is \<^verbatim>\<open>null\<close>; its fields are the
  callsign, the status and the schedule.
\<close>

datatype flight_details =
  LiveDetails flight
| ScheduleDetails string string schedule

record gate =
  g_gate :: string
  g_terminal :: string
  g_status :: string
  g_occupiedBy :: "string option"
  g_capacity :: "nat option"

record summary =
  totalFlights :: nat
  inFlight :: nat
  onGround :: nat
  totalGates :: nat
  occupiedGates :: nat
  availableGates :: nat
  sm_timestamp :: nat

text \<open>Truthiness of a nullable string: \<^verbatim>\<open>null\<close>, \<^verbatim>\<open>undefined\<close> and \<^verbatim>\<open>''\<close> are falsy.\<close>

definition truthy :: "string option \<Rightarrow> bool" where
  "truthy v = (case v of None \<Rightarrow> False | Some s \<Rightarrow> s \<noteq> [])"

text \<open>\<^verbatim>\<open>v || null\<close> on a nullable string.\<close>

definition or_null :: "string option \<Rightarrow> string option" where
  "or_null v = (if truthy v then v else None)"

text \<open>\<^verbatim>\<open>v || d\<close> on a nullable string with a string default.\<close>

definition or_default :: "string option \<Rightarrow> string \<Rightarrow> string" where
  "or_default v d = (case v of None \<Rightarrow> d | Some s \<Rightarrow> if s = [] then d else s)"

text \<open>
  \<^verbatim>\<open>String.prototype.trim\<close>. A character of a \<open>string\<close> is a code point below 256; the
  white space and line terminators of ECMAScript in that range are the tab, the line feed,
  the vertical tab, the form feed, the carriage return, the space and the no-break space.
\<close>

definition white_space :: "char \<Rightarrow> bool" where
  "white_space c \<longleftrightarrow>
     c \<in> {CHR '' '', CHR 0x09, CHR 0x0A, CHR 0x0B, CHR 0x0C, CHR 0x0D, CHR 0xA0}"

definition trim :: "string \<Rightarrow> string" where
  "trim s = rev (dropWhile white_space (rev (dropWhile white_space s)))"

definition getGateAssignment :: "neo4j \<Rightarrow> string \<Rightarrow> (string \<times> string) option" where
  "getGateAssignment db callsign =
     (case filter (\<lambda>(f, gate, terminal). f = callsign) (assigned_to db) of
        [] \<Rightarrow> None
      | (f, gate, terminal) # records \<Rightarrow> Some (gate, terminal))"

definition getFlightSchedule :: "mongodb \<Rightarrow> string \<Rightarrow> schedule option" where
  "getFlightSchedule mongo callsign =
     find (\<lambda>doc. s_flightNumber doc = trim callsign \<or>
                  s_registration doc = Some (trim callsign))
          (flight_schedules mongo)"

definition determineStatus :: "position_hash \<Rightarrow> schedule option \<Rightarrow> string" where
  "determineStatus liveData schedule =
     (if ph_on_ground liveData = ''true'' then ''on_ground''
      else case schedule of
             Some doc \<Rightarrow> or_default (s_status doc) ''in_flight''
           | None \<Rightarrow> ''in_flight'')"

text \<open>The object that \<^verbatim>\<open>getLiveFlights\<close> and \<^verbatim>\<open>getFlightDetails\<close> build from a hash.\<close>

definition liveView :: "neo4j \<Rightarrow> mongodb \<Rightarrow> position_hash \<Rightarrow> flight" where
  "liveView db mongo data =
     (let gateInfo = getGateAssignment db (ph_callsign data);
          schedule = getFlightSchedule mongo (ph_callsign data)
      in \<lparr>f_callsign = ph_callsign data,
          f_position = \<lparr>p_latitude = ph_latitude data,
                        p_longitude = ph_longitude data,
                        p_altitude = ph_altitude data,
                        p_velocity = ph_velocity data,
                        p_heading = ph_heading data\<rparr>,
          f_on_ground = (ph_on_ground data = ''true''),
          f_gate = or_null (map_option fst gateInfo),
          f_terminal = or_null (map_option snd gateInfo),
          f_status = determineStatus data schedule,
          f_schedule = schedule,
          f_last_update = ph_last_update data\<rparr>)"

definition getLiveFlights :: "redis \<Rightarrow> neo4j \<Rightarrow> mongodb \<Rightarrow> flight list" where
  "getLiveFlights r db mongo =
     (let keys = redis_keys r ''aircraft:*:position''
      in if length keys = 0 then []
         else List.map_filter
                (\<lambda>key. case redis_hGetAll r key of
                          None \<Rightarrow> None
                        | Some data \<Rightarrow>
                            if ph_callsign data \<noteq> [] then Some (liveView db mongo data)
                            else None)
                keys)"

definition getGateStatus :: "neo4j \<Rightarrow> gate list" where
  "getGateStatus db =
     map (\<lambda>record. \<lparr>g_gate = gr_gate record,
                     g_terminal = gr_terminal record,
                     g_status = or_default (gr_status record) ''available'',
                     g_occupiedBy = gr_occupiedBy record,
                     g_capacity = gr_capacity record\<rparr>)
         (gate_records db)"

text \<open>
  \<^verbatim>\<open>getFlightDetails\<close>; \<open>None\<close> is the \<^verbatim>\<open>null\<close> it returns. The key of the live branch
  comes from the scan of the same store, so its hash is there.
\<close>

definition getFlightDetails ::
  "redis \<Rightarrow> neo4j \<Rightarrow> mongodb \<Rightarrow> string \<Rightarrow> flight_details option" where
  "getFlightDetails r db mongo flightNumber =
     (case redis_keys r (''aircraft:'' @ flightNumber @ ''*:position'') of
        key # keys \<Rightarrow> map_option (\<lambda>data. LiveDetails (liveView db mongo data))
                                  (redis_hGetAll r key)
      | [] \<Rightarrow>
          (case getFlightSchedule mongo flightNumber of
             Some schedule \<Rightarrow>
               Some (ScheduleDetails flightNumber
                       (or_default (s_status schedule) ''scheduled'') schedule)
           | None \<Rightarrow> None))"

definition getFlightsByTerminal ::
  "redis \<Rightarrow> neo4j \<Rightarrow> mongodb \<Rightarrow> string \<Rightarrow> flight list" where
  "getFlightsByTerminal r db mongo terminalName =
     filter (\<lambda>f. f_terminal f = Some terminalName) (getLiveFlights r db mongo)"

definition getSummary :: "redis \<Rightarrow> neo4j \<Rightarrow> mongodb \<Rightarrow> nat \<Rightarrow> summary" where
  "getSummary r db mongo now =
     (let flights = getLiveFlights r db mongo;
          gates = getGateStatus db
      in \<lparr>totalFlights = length flights,
          inFlight = length (filter (\<lambda>f. \<not> f_on_ground f) flights),
          onGround = length (filter (\<lambda>f. f_on_ground f) flights),
          totalGates = length gates,
          occupiedGates = length (filter (\<lambda>g. truthy (g_occupiedBy g)) gates),
          availableGates = length (filter (\<lambda>g. \<not> truthy (g_occupiedBy g)) gates),
          sm_timestamp = now\<rparr>)"

section \<open>Notions used to state the properties\<close>

text \<open>
  The position store as \<^verbatim>\<open>storeLivePositions\<close> fills it: one hash per key, under the key
  \<^verbatim>\<open>aircraft:<callsign>:position\<close> of the callsign it holds.
\<close>

definition position_store :: "redis \<Rightarrow> bool" where
  "position_store r \<longleftrightarrow>
     distinct (map fst (hashes r)) \<and>
     (\<forall>(key, data) \<in> set (hashes r). key = ''aircraft:'' @ ph_callsign data @ '':position'')"

text \<open>A row that the detectors keep: it has a callsign and is not on the ground.\<close>

definition monitored :: "position_hash \<Rightarrow> bool" where
  "monitored data \<longleftrightarrow> ph_callsign data \<noteq> [] \<and> ph_on_ground data \<noteq> ''true''"

definition toAircraft :: "position_hash \<Rightarrow> aircraft" where
  "toAircraft data =
     \<lparr>ac_callsign = ph_callsign data,
      ac_latitude = ph_latitude data,
      ac_longitude = ph_longitude data,
      ac_altitude = ph_altitude data,
      ac_velocity = ph_velocity data,
      ac_heading = ph_heading data\<rparr>"

text \<open>An alert names the two callsigns, in either order.\<close>

definition alert_for :: "collision_alert \<Rightarrow> string \<Rightarrow> string \<Rightarrow> bool" where
  "alert_for al x y \<longleftrightarrow>
     (ca_aircraft1 al = x \<and> ca_aircraft2 al = y) \<or> (ca_aircraft1 al = y \<and> ca_aircraft2 al = x)"

definition alert_pair :: "collision_alert \<Rightarrow> string set" where
  "alert_pair al = {ca_aircraft1 al, ca_aircraft2 al}"

text \<open>The point lies inside some zone: nearer to its centre than its radius.\<close>

definition in_zone :: "neo4j \<Rightarrow> real \<Rightarrow> real \<Rightarrow> bool" where
  "in_zone db latitude longitude \<longleftrightarrow>
     (\<exists>(a, z) \<in> set (has_zone db).
        point_distance db latitude longitude (z_latitude z) (z_longitude z) < z_radiusMeters z)"

text \<open>The alerts that the loops of \<^verbatim>\<open>checkCollisionRisks\<close> push, without the store.\<close>

fun innerAlerts ::
  "collision_service \<Rightarrow> (nat \<Rightarrow> nat \<Rightarrow> nat) \<Rightarrow> nat \<Rightarrow> nat \<Rightarrow> aircraft \<Rightarrow> aircraft list \<Rightarrow>
   collision_alert list" where
  "innerAlerts this clock i j p [] = []"
| "innerAlerts this clock i j p (q # qs) =
     (case checkPairCollision this (clock i j) p q of None \<Rightarrow> [] | Some alert \<Rightarrow> [alert])
     @ innerAlerts this clock i (Suc j) p qs"

fun outerAlerts ::
  "collision_service \<Rightarrow> (nat \<Rightarrow> nat \<Rightarrow> nat) \<Rightarrow> nat \<Rightarrow> aircraft list \<Rightarrow> collision_alert list" where
  "outerAlerts this clock i [] = []"
| "outerAlerts this clock i (p # ps) =
     innerAlerts this clock i (Suc i) p ps @ outerAlerts this clock (Suc i) ps"

text \<open>
  What one turn of the loop of \<^verbatim>\<open>checkLowAltitudeAircraft\<close> pushes for a row it keeps: the
  entry of \<^verbatim>\<open>allAircraft\<close>, and the alert, if any.
\<close>

definition infoOf :: "neo4j \<Rightarrow> position_hash \<Rightarrow> aircraft_info" where
  "infoOf db data =
     (let airportZoneInfo = getAirportZoneInfo db (ph_latitude data) (ph_longitude data)
      in \<lparr>ai_callsign = ph_callsign data,
          ai_altitude = ph_altitude data,
          ai_latitude = ph_latitude data,
          ai_longitude = ph_longitude data,
          ai_velocity = or_zero (ph_velocity data),
          ai_heading = or_zero (ph_heading data),
          ai_inAirportZone = zi_inZone airportZoneInfo,
          ai_airportName = zi_airportName airportZoneInfo,
          ai_zoneName = zi_zoneName airportZoneInfo,
          ai_distanceToAirport = zi_distance airportZoneInfo\<rparr>)"

definition alertOf :: "altitude_service \<Rightarrow> neo4j \<Rightarrow> nat \<Rightarrow> position_hash \<Rightarrow> altitude_alert option" where
  "alertOf this db now data =
     (let airportZoneInfo = getAirportZoneInfo db (ph_latitude data) (ph_longitude data)
      in if ph_altitude data < MIN_SAFE_ALTITUDE_FT this
         then Some
           \<lparr>aa_id = ph_callsign data @ ''-'' @ nat_to_string now,
            aa_callsign = ph_callsign data,
            aa_altitude = ph_altitude data,
            aa_latitude = ph_latitude data,
            aa_longitude = ph_longitude data,
            aa_velocity = or_zero (ph_velocity data),
            aa_heading = or_zero (ph_heading data),
            aa_severity = (if zi_inZone airportZoneInfo then SAFE
                           else altitude_calculateSeverity (ph_altitude data)),
            aa_message =
              (if zi_inZone airportZoneInfo
               then ''Aircraft in '' @ template (zi_airportName airportZoneInfo)
                    @ '' '' @ template (zi_zoneName airportZoneInfo)
                    @ '' - Normal operations''
               else ''Aircraft flying below safe altitude outside airport zone''),
            aa_inAirportZone = zi_inZone airportZoneInfo,
            aa_airportName =
              (if zi_inZone airportZoneInfo then zi_airportName airportZoneInfo else None),
            aa_zoneName =
              (if zi_inZone airportZoneInfo then zi_zoneName airportZoneInfo else None),
            aa_distanceToAirport = zi_distance airportZoneInfo,
            aa_timestamp = now\<rparr>
         else None)"

fun altitudeAlerts ::
  "altitude_service \<Rightarrow> neo4j \<Rightarrow> (nat \<Rightarrow> nat) \<Rightarrow> nat \<Rightarrow> position_hash option list \<Rightarrow>
   altitude_alert list" where
  "altitudeAlerts this db clock n [] = []"
| "altitudeAlerts this db clock n (row # rows) =
     (case row of
        None \<Rightarrow> []
      | Some data \<Rightarrow>
          if monitored data
          then (case alertOf this db (clock n) data of None \<Rightarrow> [] | Some alert \<Rightarrow> [alert])
          else [])
     @ altitudeAlerts this db clock (Suc n) rows"

fun altitudeInfos :: "neo4j \<Rightarrow> position_hash option list \<Rightarrow> aircraft_info list" where
  "altitudeInfos db [] = []"
| "altitudeInfos db (row # rows) =
     (case row of
        None \<Rightarrow> []
      | Some data \<Rightarrow> if monitored data then [infoOf db data] else [])
     @ altitudeInfos db rows"

text \<open>
  The end-to-end scenario: two aircraft in flight at (50.1000, 8.6000), 25000 ft, and at
  (50.1300, 8.6100), 25500 ft, in a store with no alert yet.
\<close>

definition scenarioA :: position_hash where
  "scenarioA =
     \<lparr>ph_callsign = ''DLH400'', ph_latitude = 50.1, ph_longitude = 8.6, ph_altitude = 25000,
      ph_velocity = 250, ph_heading = 90, ph_on_ground = ''false'', ph_last_update = ''0''\<rparr>"

definition scenarioB :: position_hash where
  "scenarioB =
     \<lparr>ph_callsign = ''BAW902'', ph_latitude = 50.13, ph_longitude = 8.61, ph_altitude = 25500,
      ph_velocity = 300, ph_heading = 270, ph_on_ground = ''false'', ph_last_update = ''0''\<rparr>"

definition scenario_store :: redis where
  "scenario_store =
     \<lparr>hashes = [(''aircraft:DLH400:position'', scenarioA),
                (''aircraft:BAW902:position'', scenarioB)],
      strings = Map.empty,
      lists = (\<lambda>key. [])\<rparr>"

text \<open>Three aircraft in flight over one point, 300 ft apart in altitude.\<close>

definition clusterA :: position_hash where
  "clusterA =
     \<lparr>ph_callsign = ''KLM643'', ph_latitude = 50.05, ph_longitude = 8.55, ph_altitude = 12000,
      ph_velocity = 220, ph_heading = 45, ph_on_ground = ''false'', ph_last_update = ''0''\<rparr>"

definition clusterB :: position_hash where
  "clusterB =
     \<lparr>ph_callsign = ''AFR1234'', ph_latitude = 50.05, ph_longitude = 8.55, ph_altitude = 12300,
      ph_velocity = 230, ph_heading = 50, ph_on_ground = ''false'', ph_last_update = ''0''\<rparr>"

definition clusterC :: position_hash where
  "clusterC =
     \<lparr>ph_callsign = ''SWR123'', ph_latitude = 50.05, ph_longitude = 8.55, ph_altitude = 12600,
      ph_velocity = 240, ph_heading = 55, ph_on_ground = ''false'', ph_last_update = ''0''\<rparr>"

definition cluster_store :: redis where
  "cluster_store =
     \<lparr>hashes = [(''aircraft:KLM643:position'', clusterA),
                (''aircraft:AFR1234:position'', clusterB),
                (''aircraft:SWR123:position'', clusterC)],
      strings = Map.empty,
      lists = (\<lambda>key. [])\<rparr>"

text \<open>Alerts told apart by a number, to follow the order of insertion.\<close>

definition numbered_collision_alert :: "nat \<Rightarrow> collision_alert" where
  "numbered_collision_alert n =
     \<lparr>ca_id = ''DLH400-BAW902-'' @ nat_to_string n,
      ca_aircraft1 = ''DLH400'',
      ca_aircraft2 = ''BAW902'',
      ca_distance = 3.41,
      ca_altitudeDiff = 500,
      ca_severity = MEDIUM,
      ca_positions_aircraft1 = \<lparr>ap_latitude = 50.1, ap_longitude = 8.6, ap_altitude = 25000\<rparr>,
      ca_positions_aircraft2 = \<lparr>ap_latitude = 50.13, ap_longitude = 8.61, ap_altitude = 25500\<rparr>,
      ca_timestamp = n\<rparr>"

definition numbered_altitude_alert :: "nat \<Rightarrow> altitude_alert" where
  "numbered_altitude_alert n =
     \<lparr>aa_id = ''EZY8492-'' @ nat_to_string n,
      aa_callsign = ''EZY8492'',
      aa_altitude = 450,
      aa_latitude = 50.25,
      aa_longitude = 8.75,
      aa_velocity = 140,
      aa_heading = 180,
      aa_severity = CRITICAL,
      aa_message = ''Aircraft flying below safe altitude outside airport zone'',
      aa_inAirportZone = False,
      aa_airportName = None,
      aa_zoneName = None,
      aa_distanceToAirport = None,
      aa_timestamp = n\<rparr>"

text \<open>A schedule collection with one delayed flight, and a small graph.\<close>

definition delayed_schedule :: schedule where
  "delayed_schedule =
     \<lparr>s_flightNumber = ''LH123'', s_registration = Some ''D-AIMA'', s_status = Some ''delayed''\<rparr>"

definition dlh4_schedule :: schedule where
  "dlh4_schedule =
     \<lparr>s_flightNumber = ''DLH4'', s_registration = None, s_status = Some ''scheduled''\<rparr>"

definition demo_mongo :: mongodb where
  "demo_mongo = \<lparr>flight_schedules = [delayed_schedule, dlh4_schedule]\<rparr>"

text \<open>A clock that stands still.\<close>

definition clock_zero :: "nat \<Rightarrow> nat" where
  "clock_zero n = 0"

definition demo_graph :: neo4j where
  "demo_graph =
     \<lparr>point_distance = (\<lambda>lat1 lon1 lat2 lon2. 1000 * calculateDistance lat1 lon1 lat2 lon2),
      airports = [\<lparr>apt_name = ''Frankfurt Airport'', apt_code = ''FRA'',
                   apt_latitude = 50.0379, apt_longitude = 8.5622\<rparr>],
      has_zone = [(\<lparr>apt_name = ''Frankfurt Airport'', apt_code = ''FRA'',
                    apt_latitude = 50.0379, apt_longitude = 8.5622\<rparr>,
                   \<lparr>z_name = ''Approach Zone'', z_latitude = 50.0379, z_longitude = 8.5622,
                    z_radiusMeters = 10000\<rparr>)],
      assigned_to = [(''DLH400'', ''A12'', ''Terminal 1'')],
      gate_records = [\<lparr>gr_gate = ''A12'', gr_terminal = ''Terminal 1'', gr_status = Some ''occupied'',
                        gr_occupiedBy = Some ''DLH400'', gr_capacity = Some 1\<rparr>,
                      \<lparr>gr_gate = ''B7'', gr_terminal = ''Terminal 2'', gr_status = None,
                        gr_occupiedBy = None, gr_capacity = Some 1\<rparr>]\<rparr>"

text \<open>
  A store for the altitude check, with the zone of \<open>demo_graph\<close>: one aircraft low and
  north of the zone, one low at its centre, one high, one on the ground.
\<close>

definition lowA :: position_hash where
  "lowA =
     \<lparr>ph_callsign = ''EZY8492'', ph_latitude = 50.25, ph_longitude = 8.5622, ph_altitude = 450,
      ph_velocity = 140, ph_heading = 180, ph_on_ground = ''false'', ph_last_update = ''0''\<rparr>"

definition lowB :: position_hash where
  "lowB =
     \<lparr>ph_callsign = ''RYR7384'', ph_latitude = 50.0379, ph_longitude = 8.5622, ph_altitude = 800,
      ph_velocity = 130, ph_heading = 70, ph_on_ground = ''false'', ph_last_update = ''0''\<rparr>"

definition highC :: position_hash where
  "highC =
     \<lparr>ph_callsign = ''DLH401'', ph_latitude = 50.0379, ph_longitude = 8.5622, ph_altitude = 5000,
      ph_velocity = 250, ph_heading = 90, ph_on_ground = ''false'', ph_last_update = ''0''\<rparr>"

definition groundD :: position_hash where
  "groundD =
     \<lparr>ph_callsign = ''BAW117'', ph_latitude = 50.0379, ph_longitude = 8.5622, ph_altitude = 0,
      ph_velocity = 0, ph_heading = 0, ph_on_ground = ''true'', ph_last_update = ''0''\<rparr>"

definition low_store :: redis where
  "low_store =
     \<lparr>hashes = [(''aircraft:EZY8492:position'', lowA),
                (''aircraft:RYR7384:position'', lowB),
                (''aircraft:DLH401:position'', highC),
                (''aircraft:BAW117:position'', groundD)],
      strings = Map.empty,
      lists = (\<lambda>key. [])\<rparr>"

section \<open>Lemmas about the store and the loops\<close>

lemma hashes_altitude_storeAlert [simp]: "hashes (altitude_storeAlert r alert) = hashes r"
  by (simp add: altitude_storeAlert_def redis_set_def redis_lPush_def redis_lTrim_def Let_def)

lemma hashes_collision_storeAlert [simp]: "hashes (collision_storeAlert r alert) = hashes r"
  by (simp add: collision_storeAlert_def redis_set_def redis_lPush_def redis_lTrim_def Let_def)

lemma hashes_foldl_altitude_storeAlert:
  "hashes (foldl altitude_storeAlert r as) = hashes r"
  by (induction as arbitrary: r rule: rev_induct) simp_all

lemma hGetAll_altitude_storeAlert [simp]:
  "redis_hGetAll (altitude_storeAlert r alert) = redis_hGetAll r"
  by (rule ext) (simp add: redis_hGetAll_def)

lemma altitude_calculateSeverity_not_SAFE [simp]: "altitude_calculateSeverity x \<noteq> SAFE"
  by (simp add: altitude_calculateSeverity_def)

lemma altitudeLoop_eq:
  "altitudeLoop this db clock n keys (as, infos, r) =
     (as @ altitudeAlerts this db clock n (map (redis_hGetAll r) keys),
      infos @ altitudeInfos db (map (redis_hGetAll r) keys),
      foldl altitude_storeAlert r
        (filter (\<lambda>a. aa_severity a \<noteq> SAFE)
           (altitudeAlerts this db clock n (map (redis_hGetAll r) keys))))"
proof (induction keys arbitrary: n as infos r)
  case Nil
  then show ?case by simp
next
  case (Cons key keys)
  show ?case
  proof (cases "redis_hGetAll r key")
    case None
    then show ?thesis by (simp add: Cons.IH)
  next
    case (Some data)
    show ?thesis
    proof (cases "monitored data")
      case False
      then have "ph_callsign data = [] \<or> ph_on_ground data = ''true''"
        by (simp add: monitored_def)
      then show ?thesis using Some False by (simp add: Cons.IH)
    next
      case True
      then have m: "ph_callsign data \<noteq> []" "ph_on_ground data \<noteq> ''true''"
        by (simp_all add: monitored_def)
      show ?thesis
        using Some True m
        by (simp add: Cons.IH Let_def alertOf_def infoOf_def)
    qed
  qed
qed

lemma stringmatch_star_skip:
  "stringmatch q v \<Longrightarrow> stringmatch (CHR ''*'' # q) (u @ v)"
proof (induction u)
  case Nil
  then show ?case by (cases v) simp_all
next
  case (Cons a u)
  then show ?case by simp
qed

lemma stringmatch_all_position_keys:
  "stringmatch ''aircraft:*:position'' (''aircraft:'' @ cs @ '':position'')"
proof -
  have "stringmatch '':position'' '':position''" by simp
  then have "stringmatch (CHR ''*'' # '':position'') (cs @ '':position'')"
    by (rule stringmatch_star_skip)
  then show ?thesis by simp
qed

lemma position_store_keys:
  assumes "position_store r"
  shows "redis_keys r ''aircraft:*:position'' = map fst (hashes r)"
proof -
  have "filter (\<lambda>(k, h). stringmatch ''aircraft:*:position'' k) (hashes r) = hashes r"
  proof (rule filter_True, clarify)
    fix k h assume "(k, h) \<in> set (hashes r)"
    then have "k = ''aircraft:'' @ ph_callsign h @ '':position''"
      using assms by (auto simp: position_store_def)
    then show "stringmatch ''aircraft:*:position'' k"
      using stringmatch_all_position_keys by (simp only:)
  qed
  then show ?thesis by (simp add: redis_keys_def)
qed

lemma map_of_rows:
  assumes "distinct (map fst hs)"
  shows "map (map_of hs) (map fst hs) = map (\<lambda>kv. Some (snd kv)) hs"
proof -
  have "map_of hs (fst kv) = Some (snd kv)" if "kv \<in> set hs" for kv
    using that map_of_eq_Some_iff [OF assms, of "fst kv" "snd kv"] by simp
  then show ?thesis by simp
qed

lemma position_store_rows:
  assumes "position_store r"
  shows "map (redis_hGetAll r) (redis_keys r ''aircraft:*:position'')
         = map (\<lambda>kv. Some (snd kv)) (hashes r)"
proof -
  have "distinct (map fst (hashes r))" using assms by (simp add: position_store_def)
  then have "map (map_of (hashes r)) (map fst (hashes r)) = map (\<lambda>kv. Some (snd kv)) (hashes r)"
    by (rule map_of_rows)
  moreover have "redis_hGetAll r = map_of (hashes r)"
    by (rule ext) (simp add: redis_hGetAll_def)
  ultimately show ?thesis using position_store_keys [OF assms] by simp
qed

lemma readPositions_rows:
  "readPositions r keys =
     map toAircraft (filter monitored (List.map_filter id (map (redis_hGetAll r) keys)))"
  by (induction keys)
     (auto simp: readPositions_def List.map_filter_def toAircraft_def monitored_def
           split: option.splits)

lemma position_store_readPositions:
  assumes "position_store r"
  shows "readPositions r (redis_keys r ''aircraft:*:position'')
         = map toAircraft (filter monitored (map snd (hashes r)))"
proof -
  have "List.map_filter id (map (\<lambda>kv. Some (snd kv)) hs) = map snd hs"
    for hs :: "(string \<times> position_hash) list"
    by (induction hs) (simp_all add: List.map_filter_def)
  then show ?thesis
    by (simp add: readPositions_rows position_store_rows [OF assms])
qed

lemma position_store_callsigns:
  assumes "position_store r"
  shows "distinct (map (\<lambda>kv. ph_callsign (snd kv)) (hashes r))"
proof -
  have d: "distinct (map fst (hashes r))" using assms by (simp add: position_store_def)
  have "map fst (hashes r)
        = map (\<lambda>c. ''aircraft:'' @ c @ '':position'') (map (\<lambda>kv. ph_callsign (snd kv)) (hashes r))"
    using assms by (auto simp: position_store_def)
  with d show ?thesis by (metis distinct_map)
qed

lemma innerLoop_eq:
  "innerLoop this clock i j p qs (alerts, r) =
     (alerts @ innerAlerts this clock i j p qs,
      foldl collision_storeAlert r (innerAlerts this clock i j p qs))"
  by (induction qs arbitrary: j alerts r) (auto split: option.splits)

lemma outerLoop_eq:
  "outerLoop this clock i ps (alerts, r) =
     (alerts @ outerAlerts this clock i ps,
      foldl collision_storeAlert r (outerAlerts this clock i ps))"
  by (induction ps arbitrary: i alerts r) (auto simp: innerLoop_eq)

lemma innerAlerts_mem:
  "al \<in> set (innerAlerts this clock i j p qs) \<longleftrightarrow>
     (\<exists>k < length qs. checkPairCollision this (clock i (j + k)) p (qs ! k) = Some al)"
proof (induction qs arbitrary: j)
  case Nil
  then show ?case by simp
next
  case (Cons q qs)
  have "(\<exists>k < length (q # qs). checkPairCollision this (clock i (j + k)) p ((q # qs) ! k) = Some al)
        \<longleftrightarrow> checkPairCollision this (clock i j) p q = Some al \<or>
            (\<exists>k < length qs. checkPairCollision this (clock i (Suc j + k)) p (qs ! k) = Some al)"
    (is "?L \<longleftrightarrow> ?A \<or> ?B")
  proof
    assume ?L
    then obtain k where k: "k < length (q # qs)"
      "checkPairCollision this (clock i (j + k)) p ((q # qs) ! k) = Some al" by blast
    show "?A \<or> ?B"
    proof (cases k)
      case 0
      with k show ?thesis by simp
    next
      case (Suc m)
      with k have "m < length qs" "checkPairCollision this (clock i (Suc j + m)) p (qs ! m) = Some al"
        by simp_all
      then show ?thesis by blast
    qed
  next
    assume "?A \<or> ?B"
    then show ?L
    proof
      assume ?A
      then have "0 < length (q # qs) \<and> checkPairCollision this (clock i (j + 0)) p ((q # qs) ! 0) = Some al"
        by simp
      then show ?L by blast
    next
      assume ?B
      then obtain m where "m < length qs" "checkPairCollision this (clock i (Suc j + m)) p (qs ! m) = Some al"
        by blast
      then have "Suc m < length (q # qs) \<and> checkPairCollision this (clock i (j + Suc m)) p ((q # qs) ! Suc m) = Some al"
        by simp
      then show ?L by blast
    qed
  qed
  then show ?case using Cons.IH [of "Suc j"] by (auto split: option.splits)
qed


lemma outerAlerts_mem:
  "al \<in> set (outerAlerts this clock i ps) \<longleftrightarrow>
     (\<exists>a b. a < b \<and> b < length ps \<and>
            checkPairCollision this (clock (i + a) (i + b)) (ps ! a) (ps ! b) = Some al)"
proof (induction ps arbitrary: i)
  case Nil
  then show ?case by simp
next
  case (Cons p ps)
  let ?chk = "\<lambda>a b xs. checkPairCollision this (clock (i + a) (i + b)) (xs ! a) (xs ! b) = Some al"
  let ?I = "\<exists>k < length ps. checkPairCollision this (clock i (Suc i + k)) p (ps ! k) = Some al"
  let ?O = "\<exists>a b. a < b \<and> b < length ps \<and>
              checkPairCollision this (clock (Suc i + a) (Suc i + b)) (ps ! a) (ps ! b) = Some al"
  have "(\<exists>a b. a < b \<and> b < length (p # ps) \<and> ?chk a b (p # ps)) \<longleftrightarrow> ?I \<or> ?O" (is "?L \<longleftrightarrow> _")
  proof
    assume ?L
    then obtain a b where ab: "a < b" "b < length (p # ps)" "?chk a b (p # ps)" by blast
    from ab(1) obtain b' where b': "b = Suc b'" by (cases b) auto
    show "?I \<or> ?O"
    proof (cases a)
      case 0
      with ab b' have "b' < length ps \<and>
          checkPairCollision this (clock i (Suc i + b')) p (ps ! b') = Some al" by simp
      then show ?thesis by blast
    next
      case (Suc a')
      with ab b' have "a' < b' \<and> b' < length ps \<and>
          checkPairCollision this (clock (Suc i + a') (Suc i + b')) (ps ! a') (ps ! b') = Some al"
        by simp
      then show ?thesis by blast
    qed
  next
    assume "?I \<or> ?O"
    then show ?L
    proof
      assume ?I
      then obtain k where "k < length ps"
        "checkPairCollision this (clock i (Suc i + k)) p (ps ! k) = Some al" by blast
      then have "0 < Suc k \<and> Suc k < length (p # ps) \<and> ?chk 0 (Suc k) (p # ps)" by simp
      then show ?L by blast
    next
      assume ?O
      then obtain a b where "a < b" "b < length ps"
        "checkPairCollision this (clock (Suc i + a) (Suc i + b)) (ps ! a) (ps ! b) = Some al"
        by blast
      then have "Suc a < Suc b \<and> Suc b < length (p # ps) \<and> ?chk (Suc a) (Suc b) (p # ps)"
        by simp
      then show ?L by blast
    qed
  qed
  then show ?case using Cons.IH [of "Suc i"] by (simp add: innerAlerts_mem)
qed

lemma toRad_minus: "toRad (x - y) = - toRad (y - x)"
  by (simp add: toRad_def field_simps)

lemma calculateDistance_sym:
  "calculateDistance lat2 lon2 lat1 lon1 = calculateDistance lat1 lon1 lat2 lon2"
proof -
  have a: "toRad (lat1 - lat2) = - toRad (lat2 - lat1)"
    and b: "toRad (lon1 - lon2) = - toRad (lon2 - lon1)"
    by (rule toRad_minus)+
  show ?thesis
    unfolding calculateDistance_def Let_def a b
    by (simp add: mult.commute)
qed

lemma calculateDistance_same: "calculateDistance lat lon lat lon = 0"
  by (simp add: calculateDistance_def toRad_def atan2_def)


lemma pi_ge_3: "3 \<le> pi"
proof -
  have "sin (pi / 6) \<le> pi / 6" by (rule sin_x_le_x) simp
  then show ?thesis by (simp add: sin_30)
qed

lemma arctan_le_arg:
  assumes "0 \<le> x"
  shows "arctan x \<le> x"
proof -
  have "(\<lambda>t. t - arctan t) 0 \<le> (\<lambda>t. t - arctan t) x"
  proof (rule DERIV_nonneg_imp_nondecreasing [OF assms])
    fix t :: real
    have "DERIV (\<lambda>t. t - arctan t) t :> 1 - inverse (1 + t\<^sup>2)"
      by (auto intro!: derivative_eq_intros)
    moreover have "0 \<le> 1 - inverse (1 + t\<^sup>2)"
    proof -
      have "1 \<le> 1 + t\<^sup>2" by simp
      then have "inverse (1 + t\<^sup>2) \<le> 1" by (rule inverse_le_1_iff [THEN iffD2, OF disjI2])
      then show ?thesis by simp
    qed
    ultimately show "\<exists>y. DERIV (\<lambda>t. t - arctan t) t :> y \<and> 0 \<le> y" by blast
  qed
  then show ?thesis by simp
qed

lemma atan2_pos: "0 < x \<Longrightarrow> atan2 y x = arctan (y / x)"
  by (simp add: atan2_def)


lemma scenario_distance:
  "3 \<le> calculateDistance 50.1 8.6 50.13 8.61 \<and> calculateDistance 50.1 8.6 50.13 8.61 < 5"
proof -
  define th where "th = pi / 12000"
  define ph where "ph = pi / 36000"
  define k where "k = cos (toRad 50.1) * cos (toRad 50.13)"
  define a where "a = sin th * sin th + k * sin ph * sin ph"
  define q where "q = sqrt a / sqrt (1 - a)"
  have dlat: "toRad (50.13 - 50.1) / 2 = th" by (simp add: toRad_def th_def)
  have dlon: "toRad (8.61 - 8.6) / 2 = ph" by (simp add: toRad_def ph_def)
  have dist: "calculateDistance 50.1 8.6 50.13 8.61 = 6371 * (2 * atan2 (sqrt a) (sqrt (1 - a)))"
    by (simp only: calculateDistance_def Let_def dlat dlon a_def k_def)
  note pi3 = pi_ge_3 and pi4 = pi_less_4
  have th: "0 < th" "th < pi / 2" "th < 1 / 3000"
    using pi3 pi4 by (simp_all add: th_def)
  have ph: "0 \<le> ph" "ph < 1 / 9000"
    using pi3 pi4 by (simp_all add: ph_def)
  have c1: "0 \<le> cos (toRad 50.1)"
    using pi3 by (intro cos_ge_zero) (simp_all add: toRad_def)
  have c2: "0 \<le> cos (toRad 50.13)"
    using pi3 by (intro cos_ge_zero) (simp_all add: toRad_def)
  have k: "0 \<le> k" "k \<le> 1"
    using c1 c2 by (simp_all add: k_def mult_le_one)
  have s: "0 < sin th" "sin th \<le> th"
    using th by (simp_all add: sin_gt_zero2 sin_x_le_x)
  have t: "0 \<le> sin ph" "sin ph \<le> ph"
  proof -
    have "ph < pi" using pi3 by (simp add: ph_def)
    then show "0 \<le> sin ph" using ph(1) by (simp add: sin_ge_zero)
    show "sin ph \<le> ph" using ph(1) by (rule sin_x_le_x)
  qed
  have t2: "0 \<le> sin ph * sin ph" "sin ph * sin ph \<le> ph * ph"
    using t by (simp_all add: mult_mono)
  have kt: "0 \<le> k * (sin ph * sin ph)" "k * (sin ph * sin ph) \<le> ph * ph"
  proof -
    show "0 \<le> k * (sin ph * sin ph)" using k(1) t2(1) by simp
    have "k * (sin ph * sin ph) \<le> 1 * (ph * ph)"
      by (rule mult_mono) (use k t2 in simp_all)
    then show "k * (sin ph * sin ph) \<le> ph * ph" by simp
  qed
  have a_eq: "a = sin th * sin th + k * (sin ph * sin ph)"
    by (simp add: a_def mult.assoc)
  have a_lo: "sin th * sin th \<le> a"
    using kt(1) by (simp add: a_eq)
  have s2: "sin th * sin th \<le> th * th"
    using s by (intro mult_mono) simp_all
  have th2: "th * th < (1 / 3000) * (1 / 3000)"
    using th by (intro mult_strict_mono) simp_all
  have ph2: "ph * ph \<le> (1 / 9000) * (1 / 9000)"
    using ph by (intro mult_mono) simp_all
  have a_small: "a < 1 / 8000000"
    using s2 th2 ph2 kt(2) by (simp add: a_eq)
  have a0: "0 \<le> a"
    using a_lo s(1) by (meson less_eq_real_def mult_nonneg_nonneg order_trans)
  have a1: "0 < 1 - a" using a_small by simp
  have sq1: "0 < sqrt (1 - a)" using a1 by simp
  have at: "atan2 (sqrt a) (sqrt (1 - a)) = arctan q"
    using sq1 by (simp add: atan2_pos q_def)
  have cth: "0 < cos th" using th by (simp add: cos_gt_zero_pi)
  have lower: "th \<le> arctan q"
  proof -
    have "sqrt (sin th * sin th) \<le> sqrt a" using a_lo by (rule real_sqrt_le_mono)
    then have n: "sin th \<le> sqrt a" using s(1) by simp
    have "1 - a \<le> cos th * cos th"
    proof -
      have "cos th * cos th = 1 - sin th * sin th"
        using cos_squared_eq [of th] by (simp add: power2_eq_square)
      then show ?thesis using a_lo by simp
    qed
    then have "sqrt (1 - a) \<le> sqrt (cos th * cos th)" by (rule real_sqrt_le_mono)
    then have d: "sqrt (1 - a) \<le> cos th" using cth by simp
    have "sin th / cos th \<le> sqrt a / sqrt (1 - a)"
      by (rule frac_le) (use a0 n sq1 d in simp_all)
    then have "tan th \<le> q" by (simp add: tan_def q_def)
    then have "arctan (tan th) \<le> arctan q" by (simp add: arctan_le_iff)
    then show ?thesis using th by (simp add: arctan_tan)
  qed
  have upper: "arctan q < 5 / 12742"
  proof -
    have "a < (5 / 12742)\<^sup>2 * (1 - a)"
      using a_small by (simp add: power2_eq_square)
    then have "sqrt a < sqrt ((5 / 12742)\<^sup>2 * (1 - a))" by (rule real_sqrt_less_mono)
    then have "sqrt a < 5 / 12742 * sqrt (1 - a)" by (simp add: real_sqrt_mult)
    then have "q < 5 / 12742" using sq1 by (simp add: q_def field_simps)
    moreover have "0 \<le> q" using a0 sq1 by (simp add: q_def)
    then have "arctan q \<le> q" by (rule arctan_le_arg)
    ultimately show ?thesis by simp
  qed
  have "3 \<le> 6371 * (2 * th)" using pi3 by (simp add: th_def)
  then have "3 \<le> 6371 * (2 * arctan q)" using lower by simp
  moreover have "6371 * (2 * arctan q) < 5" using upper by simp
  ultimately show ?thesis unfolding dist at by simp
qed

lemma checkPairCollision_Some:
  assumes "checkPairCollision this now p q = Some al"
  shows "calculateDistance (ac_latitude p) (ac_longitude p) (ac_latitude q) (ac_longitude q)
           < SAFE_DISTANCE_KM this"
    and "\<bar>ac_altitude p - ac_altitude q\<bar> < SAFE_ALTITUDE_DIFF_FT this"
    and "ca_aircraft1 al = ac_callsign p"
    and "ca_aircraft2 al = ac_callsign q"
    and "ca_severity al =
           collision_calculateSeverity
             (calculateDistance (ac_latitude p) (ac_longitude p) (ac_latitude q) (ac_longitude q))
             \<bar>ac_altitude p - ac_altitude q\<bar>"
    and "ca_positions_aircraft1 al =
           \<lparr>ap_latitude = ac_latitude p, ap_longitude = ac_longitude p, ap_altitude = ac_altitude p\<rparr>"
    and "ca_positions_aircraft2 al =
           \<lparr>ap_latitude = ac_latitude q, ap_longitude = ac_longitude q, ap_altitude = ac_altitude q\<rparr>"
  using assms by (auto simp: checkPairCollision_def Let_def split: if_splits)

lemma checkPairCollision_unsafe:
  assumes "calculateDistance (ac_latitude p) (ac_longitude p) (ac_latitude q) (ac_longitude q)
             < SAFE_DISTANCE_KM this"
    and "\<bar>ac_altitude p - ac_altitude q\<bar> < SAFE_ALTITUDE_DIFF_FT this"
  shows "\<exists>al. checkPairCollision this now p q = Some al"
  using assms by (simp add: checkPairCollision_def Let_def)

lemma checkCollisionRisks_alerts:
  assumes "position_store r"
  shows "fst (checkCollisionRisks this clock r)
         = outerAlerts this clock 0 (map toAircraft (filter monitored (map snd (hashes r))))"
proof (cases "length (redis_keys r ''aircraft:*:position'') < 2")
  case False
  then show ?thesis
    by (simp add: checkCollisionRisks_def Let_def outerLoop_eq
        position_store_readPositions [OF assms])
next
  case True
  then have len: "length (hashes r) < 2" by (simp add: position_store_keys [OF assms])
  let ?ps = "map toAircraft (filter monitored (map snd (hashes r)))"
  have "length ?ps \<le> length (hashes r)"
    using length_filter_le [of monitored "map snd (hashes r)"] by simp
  with len have "length ?ps < 2" by (rule le_less_trans [rotated])
  then have "?ps = [] \<or> (\<exists>p. ?ps = [p])"
    by (cases ?ps) (auto simp: length_Suc_conv)
  then have "outerAlerts this clock 0 ?ps = []" by auto
  then show ?thesis using True by (simp add: checkCollisionRisks_def Let_def)
qed

lemma distinct_map_eq:
  "distinct (map f xs) \<Longrightarrow> x \<in> set xs \<Longrightarrow> y \<in> set xs \<Longrightarrow> f x = f y \<Longrightarrow> x = y"
  by (auto simp: distinct_map inj_on_def)

lemma abs_diff_sym: "\<bar>x - y\<bar> = \<bar>y - x\<bar>" for x y :: real
  by simp

lemma outerAlerts_pair_iff:
  assumes d: "distinct (map ac_callsign ps)"
    and p: "p \<in> set ps" and q: "q \<in> set ps"
    and ne: "ac_callsign p \<noteq> ac_callsign q"
  shows "(\<exists>al \<in> set (outerAlerts this clock i ps). alert_for al (ac_callsign p) (ac_callsign q))
         \<longleftrightarrow> calculateDistance (ac_latitude p) (ac_longitude p) (ac_latitude q) (ac_longitude q)
                 < SAFE_DISTANCE_KM this \<and>
               \<bar>ac_altitude p - ac_altitude q\<bar> < SAFE_ALTITUDE_DIFF_FT this"
    (is "?L \<longleftrightarrow> ?R")
proof
  assume ?L
  then obtain al where al: "al \<in> set (outerAlerts this clock i ps)"
    and af: "alert_for al (ac_callsign p) (ac_callsign q)" by blast
  from al obtain a b where ab: "a < b" "b < length ps"
    and chk: "checkPairCollision this (clock (i + a) (i + b)) (ps ! a) (ps ! b) = Some al"
    by (auto simp: outerAlerts_mem)
  have ina: "ps ! a \<in> set ps" and inb: "ps ! b \<in> set ps" using ab by simp_all
  note f = checkPairCollision_Some [OF chk]
  from af consider
    (same) "ac_callsign (ps ! a) = ac_callsign p" "ac_callsign (ps ! b) = ac_callsign q"
    | (swap) "ac_callsign (ps ! a) = ac_callsign q" "ac_callsign (ps ! b) = ac_callsign p"
    using f(3,4) by (auto simp: alert_for_def)
  then show ?R
  proof cases
    case same
    then have "ps ! a = p" "ps ! b = q"
      using distinct_map_eq [OF d ina p] distinct_map_eq [OF d inb q] by simp_all
    then show ?thesis using f(1,2) by simp
  next
    case swap
    then have "ps ! a = q" "ps ! b = p"
      using distinct_map_eq [OF d ina q] distinct_map_eq [OF d inb p] by simp_all
    then show ?thesis
      using f(1,2) calculateDistance_sym [of "ac_latitude p" "ac_longitude p" "ac_latitude q" "ac_longitude q"]
        abs_diff_sym [of "ac_altitude p" "ac_altitude q"] by simp
  qed
next
  assume r: ?R
  from p obtain a where a: "a < length ps" "ps ! a = p" by (auto simp: in_set_conv_nth)
  from q obtain b where b: "b < length ps" "ps ! b = q" by (auto simp: in_set_conv_nth)
  have "a \<noteq> b" using a b ne by auto
  then consider "a < b" | "b < a" by linarith
  then show ?L
  proof cases
    case 1
    from r obtain al where
      chk: "checkPairCollision this (clock (i + a) (i + b)) p q = Some al"
      using checkPairCollision_unsafe by blast
    then have "al \<in> set (outerAlerts this clock i ps)"
      using 1 a b by (auto simp: outerAlerts_mem)
    moreover have "alert_for al (ac_callsign p) (ac_callsign q)"
      using checkPairCollision_Some(3,4) [OF chk] by (simp add: alert_for_def)
    ultimately show ?thesis by blast
  next
    case 2
    from r have "calculateDistance (ac_latitude q) (ac_longitude q) (ac_latitude p) (ac_longitude p)
                   < SAFE_DISTANCE_KM this"
      and "\<bar>ac_altitude q - ac_altitude p\<bar> < SAFE_ALTITUDE_DIFF_FT this"
      using calculateDistance_sym [of "ac_latitude p" "ac_longitude p" "ac_latitude q" "ac_longitude q"]
        abs_diff_sym [of "ac_altitude p" "ac_altitude q"] by simp_all
    then obtain al where
      chk: "checkPairCollision this (clock (i + b) (i + a)) q p = Some al"
      using checkPairCollision_unsafe by blast
    then have "al \<in> set (outerAlerts this clock i ps)"
      using 2 a b by (auto simp: outerAlerts_mem)
    moreover have "alert_for al (ac_callsign p) (ac_callsign q)"
      using checkPairCollision_Some(3,4) [OF chk] by (simp add: alert_for_def)
    ultimately show ?thesis by blast
  qed
qed

lemma position_store_key:
  "position_store r \<Longrightarrow> (key, data) \<in> set (hashes r)
   \<Longrightarrow> key = ''aircraft:'' @ ph_callsign data @ '':position''"
  by (auto simp: position_store_def)

lemma monitored_aircraft_distinct:
  assumes "position_store r"
  shows "distinct (map ac_callsign (map toAircraft (filter monitored (map snd (hashes r)))))"
proof -
  have "distinct (map ph_callsign (map snd (hashes r)))"
    using position_store_callsigns [OF assms] by (simp add: comp_def)
  then have "distinct (map ph_callsign (filter monitored (map snd (hashes r))))"
    by (rule distinct_map_filter)
  moreover have "ac_callsign \<circ> toAircraft = ph_callsign"
    by (rule ext) (simp add: toAircraft_def)
  ultimately show ?thesis by simp
qed

lemma scenario_store_ok: "position_store scenario_store"
  by (simp add: position_store_def scenario_store_def scenarioA_def scenarioB_def)

lemma scenario_monitored: "monitored scenarioA" "monitored scenarioB"
  by (simp_all add: monitored_def scenarioA_def scenarioB_def)

lemma scenario_unsafe:
  "calculateDistance (ph_latitude scenarioA) (ph_longitude scenarioA)
     (ph_latitude scenarioB) (ph_longitude scenarioB) < SAFE_DISTANCE_KM collisionService
   \<and> \<bar>ph_altitude scenarioA - ph_altitude scenarioB\<bar> < SAFE_ALTITUDE_DIFF_FT collisionService"
  using scenario_distance by (simp add: scenarioA_def scenarioB_def collisionService_def)

lemma outerAlerts_pair_severity:
  assumes d: "distinct (map ac_callsign ps)"
    and p: "p \<in> set ps" and q: "q \<in> set ps"
    and al: "al \<in> set (outerAlerts this clock i ps)"
    and af: "alert_for al (ac_callsign p) (ac_callsign q)"
  shows "ca_severity al =
           collision_calculateSeverity
             (calculateDistance (ac_latitude p) (ac_longitude p) (ac_latitude q) (ac_longitude q))
             \<bar>ac_altitude p - ac_altitude q\<bar>"
proof -
  from al obtain a b where ab: "a < b" "b < length ps"
    and chk: "checkPairCollision this (clock (i + a) (i + b)) (ps ! a) (ps ! b) = Some al"
    unfolding outerAlerts_mem by blast
  have ina: "ps ! a \<in> set ps" and inb: "ps ! b \<in> set ps" using ab by simp_all
  note f = checkPairCollision_Some [OF chk]
  from af consider
    (same) "ac_callsign (ps ! a) = ac_callsign p" "ac_callsign (ps ! b) = ac_callsign q"
    | (swap) "ac_callsign (ps ! a) = ac_callsign q" "ac_callsign (ps ! b) = ac_callsign p"
    using f(3,4) by (auto simp: alert_for_def)
  then show ?thesis
  proof cases
    case same
    then have "ps ! a = p" "ps ! b = q"
      using distinct_map_eq [OF d ina p] distinct_map_eq [OF d inb q] by simp_all
    then show ?thesis using f(5) by simp
  next
    case swap
    then have "ps ! a = q" "ps ! b = p"
      using distinct_map_eq [OF d ina q] distinct_map_eq [OF d inb p] by simp_all
    then show ?thesis
      using f(5) calculateDistance_sym [of "ac_latitude p" "ac_longitude p"
          "ac_latitude q" "ac_longitude q"]
        abs_diff_sym [of "ac_altitude p" "ac_altitude q"]
      by simp
  qed
qed

lemma checkPairCollision_sym:
  "map_option (\<lambda>al. (ca_distance al, ca_altitudeDiff al, ca_severity al))
     (checkPairCollision this now p q)
   = map_option (\<lambda>al. (ca_distance al, ca_altitudeDiff al, ca_severity al))
       (checkPairCollision this now' q p)"
proof -
  have d: "calculateDistance (ac_latitude q) (ac_longitude q) (ac_latitude p) (ac_longitude p)
           = calculateDistance (ac_latitude p) (ac_longitude p) (ac_latitude q) (ac_longitude q)"
    by (rule calculateDistance_sym)
  have h: "\<bar>ac_altitude q - ac_altitude p\<bar> = \<bar>ac_altitude p - ac_altitude q\<bar>"
    by (rule abs_diff_sym)
  show ?thesis
    unfolding checkPairCollision_def Let_def d h by simp
qed

lemma innerAlerts_pair:
  assumes "al \<in> set (innerAlerts this clock i j p qs)"
  shows "\<exists>q \<in> set qs. alert_pair al = {ac_callsign p, ac_callsign q}"
proof -
  from assms obtain k where k: "k < length qs"
    and chk: "checkPairCollision this (clock i (j + k)) p (qs ! k) = Some al"
    unfolding innerAlerts_mem by blast
  have "alert_pair al = {ac_callsign p, ac_callsign (qs ! k)}"
    using checkPairCollision_Some(3,4) [OF chk] by (simp add: alert_pair_def)
  moreover have "qs ! k \<in> set qs" using k by simp
  ultimately show ?thesis by blast
qed

lemma outerAlerts_pair_subset:
  assumes "al \<in> set (outerAlerts this clock i ps)"
  shows "alert_pair al \<subseteq> ac_callsign ` set ps"
proof -
  from assms obtain a b where ab: "a < b" "b < length ps"
    and chk: "checkPairCollision this (clock (i + a) (i + b)) (ps ! a) (ps ! b) = Some al"
    unfolding outerAlerts_mem by blast
  have "ps ! a \<in> set ps" "ps ! b \<in> set ps" using ab by simp_all
  then show ?thesis
    using checkPairCollision_Some(3,4) [OF chk] by (simp add: alert_pair_def)
qed

lemma doubleton_same_first: "{a, b} = {a, c} \<Longrightarrow> b = c"
  by (auto simp: doubleton_eq_iff)

lemma innerAlerts_distinct:
  assumes "distinct (map ac_callsign qs)"
  shows "distinct (map alert_pair (innerAlerts this clock i j p qs))"
  using assms
proof (induction qs arbitrary: j)
  case Nil
  then show ?case by simp
next
  case (Cons q qs)
  then have IH: "distinct (map alert_pair (innerAlerts this clock i (Suc j) p qs))"
    and fresh: "ac_callsign q \<notin> ac_callsign ` set qs" by simp_all
  show ?case
  proof (cases "checkPairCollision this (clock i j) p q")
    case None
    then show ?thesis using IH by simp
  next
    case (Some al)
    have pr: "alert_pair al = {ac_callsign p, ac_callsign q}"
      using checkPairCollision_Some(3,4) [OF Some] by (simp add: alert_pair_def)
    have "alert_pair al \<notin> alert_pair ` set (innerAlerts this clock i (Suc j) p qs)"
    proof
      assume "alert_pair al \<in> alert_pair ` set (innerAlerts this clock i (Suc j) p qs)"
      then obtain al' where al': "al' \<in> set (innerAlerts this clock i (Suc j) p qs)"
        and eq: "alert_pair al = alert_pair al'" by blast
      from innerAlerts_pair [OF al'] obtain q' where q': "q' \<in> set qs"
        and pr': "alert_pair al' = {ac_callsign p, ac_callsign q'}" by blast
      from eq pr pr' have "ac_callsign q = ac_callsign q'"
        using doubleton_same_first by metis
      with q' fresh show False by blast
    qed
    then show ?thesis using Some IH by simp
  qed
qed

lemma outerAlerts_distinct:
  assumes "distinct (map ac_callsign ps)"
  shows "distinct (map alert_pair (outerAlerts this clock i ps))"
  using assms
proof (induction ps arbitrary: i)
  case Nil
  then show ?case by simp
next
  case (Cons p ps)
  then have IH: "distinct (map alert_pair (outerAlerts this clock (Suc i) ps))"
    and d: "distinct (map ac_callsign ps)"
    and fresh: "ac_callsign p \<notin> ac_callsign ` set ps" by simp_all
  have inner: "distinct (map alert_pair (innerAlerts this clock i (Suc i) p ps))"
    using d by (rule innerAlerts_distinct)
  have disj: "alert_pair ` set (innerAlerts this clock i (Suc i) p ps)
              \<inter> alert_pair ` set (outerAlerts this clock (Suc i) ps) = {}"
  proof (rule ccontr)
    assume "\<not> ?thesis"
    then obtain x y where x: "x \<in> set (innerAlerts this clock i (Suc i) p ps)"
      and y: "y \<in> set (outerAlerts this clock (Suc i) ps)"
      and eq: "alert_pair x = alert_pair y" by blast
    from innerAlerts_pair [OF x] have "ac_callsign p \<in> alert_pair x" by auto
    with eq outerAlerts_pair_subset [OF y] have "ac_callsign p \<in> ac_callsign ` set ps" by auto
    with fresh show False by contradiction
  qed
  show ?case using inner IH disj by simp
qed

lemma cluster_store_ok: "position_store cluster_store"
  by (simp add: position_store_def cluster_store_def clusterA_def clusterB_def clusterC_def)

lemma cluster_positions:
  "map toAircraft (filter monitored (map snd (hashes cluster_store)))
   = [toAircraft clusterA, toAircraft clusterB, toAircraft clusterC]"
  by (simp add: cluster_store_def monitored_def clusterA_def clusterB_def clusterC_def)

lemma cluster_pairs:
  "map_option (\<lambda>al. (ca_aircraft1 al, ca_aircraft2 al, ca_severity al))
     (checkPairCollision collisionService now (toAircraft clusterA) (toAircraft clusterB))
   = Some (''KLM643'', ''AFR1234'', CRITICAL)"
  "map_option (\<lambda>al. (ca_aircraft1 al, ca_aircraft2 al, ca_severity al))
     (checkPairCollision collisionService now (toAircraft clusterA) (toAircraft clusterC))
   = Some (''KLM643'', ''SWR123'', HIGH)"
  "map_option (\<lambda>al. (ca_aircraft1 al, ca_aircraft2 al, ca_severity al))
     (checkPairCollision collisionService now (toAircraft clusterB) (toAircraft clusterC))
   = Some (''AFR1234'', ''SWR123'', CRITICAL)"
  by (simp_all add: checkPairCollision_def Let_def toAircraft_def clusterA_def clusterB_def
      clusterC_def calculateDistance_same collisionService_def collision_calculateSeverity_def)

lemma cluster_alerts:
  "map (\<lambda>al. (ca_aircraft1 al, ca_aircraft2 al, ca_severity al))
     (fst (checkCollisionRisks collisionService (\<lambda>i j. 0) cluster_store))
   = [(''KLM643'', ''AFR1234'', CRITICAL), (''KLM643'', ''SWR123'', HIGH),
      (''AFR1234'', ''SWR123'', CRITICAL)]"
proof -
  obtain x where x: "checkPairCollision collisionService 0 (toAircraft clusterA) (toAircraft clusterB) = Some x"
    using cluster_pairs(1) [of 0] by auto
  obtain y where y: "checkPairCollision collisionService 0 (toAircraft clusterA) (toAircraft clusterC) = Some y"
    using cluster_pairs(2) [of 0] by auto
  obtain z where z: "checkPairCollision collisionService 0 (toAircraft clusterB) (toAircraft clusterC) = Some z"
    using cluster_pairs(3) [of 0] by auto
  show ?thesis
    using cluster_pairs [of 0]
    unfolding checkCollisionRisks_alerts [OF cluster_store_ok] cluster_positions
    by (simp add: x y z)
qed

lemma scenario_pair:
  assumes "ac_latitude p = 50.1" "ac_longitude p = 8.6" "ac_altitude p = 25000"
    and "ac_latitude q = 50.13" "ac_longitude q = 8.61" "ac_altitude q = 25500"
  shows "\<exists>al. checkPairCollision collisionService now p q = Some al \<and>
              ca_aircraft1 al = ac_callsign p \<and> ca_aircraft2 al = ac_callsign q \<and>
              ca_severity al = MEDIUM"
proof -
  have lo: "\<not> calculateDistance 50.1 8.6 50.13 8.61 < 3"
    and hi: "calculateDistance 50.1 8.6 50.13 8.61 < 5"
    using scenario_distance by simp_all
  have lo2: "\<not> calculateDistance 50.1 8.6 50.13 8.61 < 2" using lo by simp
  show ?thesis
    unfolding checkPairCollision_def Let_def assms collisionService_def
      collision_calculateSeverity_def
    using lo lo2 hi by simp
qed

lemma scenario_positions:
  "map toAircraft (filter monitored (map snd (hashes scenario_store)))
   = [toAircraft scenarioA, toAircraft scenarioB]"
  by (simp add: scenario_store_def monitored_def scenarioA_def scenarioB_def)

lemma scenario_cycle:
  "map (\<lambda>al. (ca_aircraft1 al, ca_aircraft2 al, ca_severity al))
     (fst (checkCollisionRisks collisionService clock scenario_store))
   = [(''DLH400'', ''BAW902'', MEDIUM)]"
proof -
  obtain al where
    al: "checkPairCollision collisionService (clock 0 (Suc 0)) (toAircraft scenarioA)
           (toAircraft scenarioB) = Some al"
      "ca_aircraft1 al = ac_callsign (toAircraft scenarioA)"
      "ca_aircraft2 al = ac_callsign (toAircraft scenarioB)"
      "ca_severity al = MEDIUM"
    using scenario_pair [of "toAircraft scenarioA" "toAircraft scenarioB" "clock 0 (Suc 0)"]
    by (auto simp: toAircraft_def scenarioA_def scenarioB_def)
  show ?thesis
    unfolding checkCollisionRisks_alerts [OF scenario_store_ok] scenario_positions
    using al by (simp add: toAircraft_def scenarioA_def scenarioB_def)
qed

lemma redis_range_trim: "redis_range xs 0 99 = take 100 xs"
proof (cases xs)
  case Nil
  then show ?thesis by (simp add: redis_range_def redis_index_def)
next
  case (Cons y ys)
  have "nat (min 99 (int (length ys)) + 1) = min 100 (Suc (length ys))" by simp
  then show ?thesis
    using Cons by (simp add: redis_range_def redis_index_def Let_def min_def)
qed

lemma redis_range_all: "redis_range xs 0 (- 1) = xs"
  by (cases xs) (simp_all add: redis_range_def redis_index_def Let_def)

lemma collision_storeAlert_list:
  "lists (collision_storeAlert r alert) ''alerts:collision:active''
   = take 100 (CollisionJson alert # lists r ''alerts:collision:active'')"
  by (simp add: collision_storeAlert_def redis_set_def redis_lPush_def redis_lTrim_def Let_def
      redis_range_trim)

lemma altitude_storeAlert_list:
  "lists (altitude_storeAlert r alert) ''alerts:altitude:active''
   = take 100 (AltitudeJson alert # lists r ''alerts:altitude:active'')"
  by (simp add: altitude_storeAlert_def redis_set_def redis_lPush_def redis_lTrim_def Let_def
      redis_range_trim)

lemma take_push_front:
  assumes step: "\<And>r a. sel (store r a) = take 100 (tag a # sel r)"
  shows "as \<noteq> [] \<Longrightarrow> sel (foldl store r as) = take 100 (map tag (rev as) @ sel r)"
proof (induction as arbitrary: r rule: rev_induct)
  case Nil
  then show ?case by simp
next
  case (snoc a as)
  show ?case
  proof (cases "as = []")
    case True
    then show ?thesis by (simp add: step)
  next
    case False
    then have "sel (foldl store r as) = take 100 (map tag (rev as) @ sel r)"
      by (rule snoc.IH)
    then have "sel (foldl store r (as @ [a]))
               = take 100 (tag a # take 100 (map tag (rev as) @ sel r))"
      by (simp add: step)
    also have "\<dots> = take 100 (tag a # map tag (rev as) @ sel r)"
      by (simp add: take_Cons' min_def)
    finally show ?thesis by simp
  qed
qed

lemma push_front_most_recent:
  assumes step: "\<And>r a. sel (store r a) = take 100 (tag a # sel r)"
    and len: "100 \<le> length as"
  shows "sel (foldl store r as) = map tag (take 100 (rev as))"
proof -
  have "as \<noteq> []" using len by auto
  then have "sel (foldl store r as) = take 100 (map tag (rev as) @ sel r)"
    by (rule take_push_front [of sel store tag, OF step])
  also have "\<dots> = take 100 (map tag (rev as))" using len by simp
  finally show ?thesis by (simp add: take_map)
qed

lemma most_recent_of_150:
  "take 100 (rev (map f [0..<150])) = map f (rev [50..<150])"
  by (simp add: take_rev rev_map [symmetric] drop_map)

lemma demo_schedule_lookup: "getFlightSchedule demo_mongo ''LH123'' = Some delayed_schedule"
  by (simp add: getFlightSchedule_def demo_mongo_def delayed_schedule_def trim_def white_space_def)

lemma scenario_scan_none:
  "redis_keys scenario_store ''aircraft:LH123*:position'' = []"
  "redis_keys scenario_store ''aircraft:XX999*:position'' = []"
  by (simp_all add: redis_keys_def scenario_store_def)

lemma scenario_scan_DLH4:
  "redis_keys scenario_store ''aircraft:DLH4*:position'' = [''aircraft:DLH400:position'']"
  by (simp add: redis_keys_def scenario_store_def)

lemma demo_schedule_lookup_others:
  "getFlightSchedule demo_mongo ''DLH4'' = Some dlh4_schedule"
  "getFlightSchedule demo_mongo ''XX999'' = None"
  by (simp_all add: getFlightSchedule_def demo_mongo_def delayed_schedule_def dlh4_schedule_def
      trim_def white_space_def)

lemma nearest_None: "nearest xs = None \<longleftrightarrow> xs = []"
  by (induction xs) (auto split: option.splits)

lemma nearest_Some_mem: "nearest xs = Some x \<Longrightarrow> x \<in> set xs"
  by (induction xs arbitrary: x) (auto split: option.splits if_splits)

lemma zone_rows_empty:
  "filter (\<lambda>((a, z), distance). distance < z_radiusMeters z)
     (map (\<lambda>(a, z). ((a, z),
             point_distance db latitude longitude (z_latitude z) (z_longitude z)))
          (has_zone db)) = []
   \<longleftrightarrow> \<not> in_zone db latitude longitude"
  by (auto simp: in_zone_def filter_empty_conv)

lemma getAirportZoneInfo_inZone:
  "zi_inZone (getAirportZoneInfo db latitude longitude) \<longleftrightarrow> in_zone db latitude longitude"
proof -
  let ?rows = "filter (\<lambda>((a, z), distance). distance < z_radiusMeters z)
                 (map (\<lambda>(a, z). ((a, z),
                         point_distance db latitude longitude (z_latitude z) (z_longitude z)))
                      (has_zone db))"
  have rows: "?rows = [] \<longleftrightarrow> \<not> in_zone db latitude longitude"
    by (rule zone_rows_empty)
  show ?thesis
  proof (cases "nearest ?rows")
    case None
    then have "?rows = []" by (simp add: nearest_None)
    with rows have "\<not> in_zone db latitude longitude" by simp
    moreover have "\<not> zi_inZone (getAirportZoneInfo db latitude longitude)"
      using None by (simp add: getAirportZoneInfo_def Let_def split: option.splits prod.splits)
    ultimately show ?thesis by simp
  next
    case (Some x)
    then have "?rows \<noteq> []" using nearest_None [of ?rows] by simp
    with rows have "in_zone db latitude longitude" by simp
    moreover have "zi_inZone (getAirportZoneInfo db latitude longitude)"
      using Some by (simp add: getAirportZoneInfo_def Let_def split: option.splits prod.splits)
    ultimately show ?thesis by simp
  qed
qed

lemma getAirportZoneInfo_names:
  assumes "in_zone db latitude longitude"
  shows "\<exists>(a, z) \<in> set (has_zone db).
           point_distance db latitude longitude (z_latitude z) (z_longitude z) < z_radiusMeters z \<and>
           zi_airportName (getAirportZoneInfo db latitude longitude) = Some (apt_name a) \<and>
           zi_zoneName (getAirportZoneInfo db latitude longitude) = Some (z_name z)"
proof -
  let ?rows = "filter (\<lambda>((a, z), distance). distance < z_radiusMeters z)
                 (map (\<lambda>(a, z). ((a, z),
                         point_distance db latitude longitude (z_latitude z) (z_longitude z)))
                      (has_zone db))"
  have "?rows \<noteq> []" using assms zone_rows_empty [of db latitude longitude] by simp
  then obtain a z d where n: "nearest ?rows = Some ((a, z), d)"
    using nearest_None [of ?rows] by (cases "nearest ?rows") auto
  from nearest_Some_mem [OF n] have
    "(a, z) \<in> set (has_zone db)"
    "point_distance db latitude longitude (z_latitude z) (z_longitude z) < z_radiusMeters z"
    by auto
  moreover have "zi_airportName (getAirportZoneInfo db latitude longitude) = Some (apt_name a)"
    "zi_zoneName (getAirportZoneInfo db latitude longitude) = Some (z_name z)"
    using n by (simp_all add: getAirportZoneInfo_def Let_def)
  ultimately show ?thesis by blast
qed

lemma altitudeInfos_map:
  "altitudeInfos db (map (\<lambda>kv. Some (snd kv)) hs) = map (infoOf db) (filter monitored (map snd hs))"
  by (induction hs) simp_all

lemma altitudeAlerts_mem:
  "al \<in> set (altitudeAlerts this db clock n rows) \<longleftrightarrow>
     (\<exists>m < length rows. \<exists>data. rows ! m = Some data \<and> monitored data \<and>
        alertOf this db (clock (n + m)) data = Some al)"
proof (induction rows arbitrary: n)
  case Nil
  then show ?case by simp
next
  case (Cons row rows)
  let ?H = "\<lambda>data. monitored data \<and> alertOf this db (clock n) data = Some al"
  let ?T = "\<exists>m < length rows. \<exists>data. rows ! m = Some data \<and> monitored data \<and>
              alertOf this db (clock (Suc n + m)) data = Some al"
  have sp: "(\<exists>m < length (row # rows). \<exists>data. (row # rows) ! m = Some data \<and> monitored data \<and>
                  alertOf this db (clock (n + m)) data = Some al)
               \<longleftrightarrow> (\<exists>data. row = Some data \<and> ?H data) \<or> ?T" (is "?L \<longleftrightarrow> ?A \<or> _")
  proof
    assume ?L
    then obtain m data where m: "m < length (row # rows)" "(row # rows) ! m = Some data"
      "monitored data" "alertOf this db (clock (n + m)) data = Some al" by blast
    show "?A \<or> ?T"
    proof (cases m)
      case 0
      with m show ?thesis by simp
    next
      case (Suc k)
      with m have "k < length rows \<and> rows ! k = Some data \<and> monitored data \<and>
                   alertOf this db (clock (Suc n + k)) data = Some al" by simp
      then show ?thesis by blast
    qed
  next
    assume "?A \<or> ?T"
    then show ?L
    proof
      assume ?A
      then obtain data where "row = Some data" "?H data" by blast
      then have "0 < length (row # rows) \<and> (row # rows) ! 0 = Some data \<and> monitored data \<and>
                 alertOf this db (clock (n + 0)) data = Some al" by simp
      then show ?L by blast
    next
      assume ?T
      then obtain k data where "k < length rows" "rows ! k = Some data" "monitored data"
        "alertOf this db (clock (Suc n + k)) data = Some al" by blast
      then have "Suc k < length (row # rows) \<and> (row # rows) ! Suc k = Some data \<and>
                 monitored data \<and> alertOf this db (clock (n + Suc k)) data = Some al" by simp
      then show ?L by blast
    qed
  qed
  have "al \<in> set (altitudeAlerts this db clock n (row # rows))
        \<longleftrightarrow> (\<exists>data. row = Some data \<and> ?H data) \<or>
            al \<in> set (altitudeAlerts this db clock (Suc n) rows)"
  proof (cases row)
    case None
    then show ?thesis by simp
  next
    case (Some data)
    show ?thesis
    proof (cases "monitored data")
      case True
      show ?thesis
      proof (cases "alertOf this db (clock n) data")
        case None
        with Some True show ?thesis by simp
      next
        case (Some x)
        with \<open>row = Some data\<close> True show ?thesis by auto
      qed
    next
      case False
      with Some show ?thesis by simp
    qed
  qed
  then show ?case unfolding sp Cons.IH [of "Suc n"] .
qed

lemma alertOf_Some:
  assumes "alertOf this db now data = Some al"
  shows "ph_altitude data < MIN_SAFE_ALTITUDE_FT this"
    and "aa_callsign al = ph_callsign data"
    and "aa_id al = ph_callsign data @ ''-'' @ nat_to_string now"
    and "aa_altitude al = ph_altitude data"
    and "aa_inAirportZone al \<longleftrightarrow> in_zone db (ph_latitude data) (ph_longitude data)"
    and "aa_severity al =
           (if in_zone db (ph_latitude data) (ph_longitude data) then SAFE
            else altitude_calculateSeverity (ph_altitude data))"
    and "aa_message al =
           (if in_zone db (ph_latitude data) (ph_longitude data)
            then ''Aircraft in ''
                 @ template (zi_airportName (getAirportZoneInfo db (ph_latitude data) (ph_longitude data)))
                 @ '' ''
                 @ template (zi_zoneName (getAirportZoneInfo db (ph_latitude data) (ph_longitude data)))
                 @ '' - Normal operations''
            else ''Aircraft flying below safe altitude outside airport zone'')"
    and "in_zone db (ph_latitude data) (ph_longitude data) \<Longrightarrow>
           aa_airportName al = zi_airportName (getAirportZoneInfo db (ph_latitude data) (ph_longitude data)) \<and>
           aa_zoneName al = zi_zoneName (getAirportZoneInfo db (ph_latitude data) (ph_longitude data))"
  using assms
  by (auto simp: alertOf_def Let_def getAirportZoneInfo_inZone split: if_splits)

lemma alertOf_low:
  "ph_altitude data < MIN_SAFE_ALTITUDE_FT this \<Longrightarrow> \<exists>al. alertOf this db now data = Some al"
  by (simp add: alertOf_def Let_def)

lemma alertOf_high:
  "MIN_SAFE_ALTITUDE_FT this \<le> ph_altitude data \<Longrightarrow> alertOf this db now data = None"
  by (simp add: alertOf_def Let_def)

lemma checkLowAltitudeAircraft_eq:
  "checkLowAltitudeAircraft this db clock r =
     (let rows = map (redis_hGetAll r) (redis_keys r ''aircraft:*:position'');
          found = altitudeAlerts this db clock 0 rows
      in (\<lparr>res_alerts = found,
           res_totalAircraft = length (altitudeInfos db rows),
           res_monitoredAircraft = altitudeInfos db rows\<rparr>,
          foldl altitude_storeAlert r (filter (\<lambda>a. aa_severity a \<noteq> SAFE) found)))"
  by (simp add: checkLowAltitudeAircraft_def Let_def altitudeLoop_eq)

lemma checkLowAltitudeAircraft_store:
  "snd (checkLowAltitudeAircraft this db clock r) =
     foldl altitude_storeAlert r
       (filter (\<lambda>a. aa_severity a \<noteq> SAFE)
          (res_alerts (fst (checkLowAltitudeAircraft this db clock r))))"
  by (simp add: checkLowAltitudeAircraft_eq Let_def)

lemma position_store_alerts:
  assumes "position_store r"
  shows "res_alerts (fst (checkLowAltitudeAircraft this db clock r))
         = altitudeAlerts this db clock 0 (map (\<lambda>kv. Some (snd kv)) (hashes r))"
  by (simp add: checkLowAltitudeAircraft_eq Let_def position_store_rows [OF assms])

lemma position_store_monitoredAircraft:
  assumes "position_store r"
  shows "res_monitoredAircraft (fst (checkLowAltitudeAircraft this db clock r))
         = map (infoOf db) (filter monitored (map snd (hashes r)))"
  by (simp add: checkLowAltitudeAircraft_eq Let_def position_store_rows [OF assms]
      altitudeInfos_map)

lemma altitudeAlerts_origin:
  assumes "al \<in> set (altitudeAlerts this db clock n (map (\<lambda>kv. Some (snd kv)) hs))"
  shows "\<exists>kv now. kv \<in> set hs \<and> monitored (snd kv) \<and> alertOf this db now (snd kv) = Some al"
proof -
  from assms obtain m data where m: "m < length hs"
    and row: "map (\<lambda>kv. Some (snd kv)) hs ! m = Some data"
    and ok: "monitored data" "alertOf this db (clock (n + m)) data = Some al"
    unfolding altitudeAlerts_mem by auto
  from m row have "data = snd (hs ! m)" by simp
  moreover have "hs ! m \<in> set hs" using m by simp
  ultimately show ?thesis using ok by blast
qed

lemma altitudeAlerts_present:
  assumes "kv \<in> set hs" and "monitored (snd kv)"
    and "ph_altitude (snd kv) < MIN_SAFE_ALTITUDE_FT this"
  shows "\<exists>al now. al \<in> set (altitudeAlerts this db clock n (map (\<lambda>kv. Some (snd kv)) hs)) \<and>
                  alertOf this db now (snd kv) = Some al"
proof -
  from assms(1) obtain m where m: "m < length hs" "hs ! m = kv"
    by (auto simp: in_set_conv_nth)
  obtain al where al: "alertOf this db (clock (n + m)) (snd kv) = Some al"
    using alertOf_low [OF assms(3)] by blast
  have "m < length (map (\<lambda>kv. Some (snd kv)) hs) \<and>
        map (\<lambda>kv. Some (snd kv)) hs ! m = Some (snd kv) \<and> monitored (snd kv) \<and>
        alertOf this db (clock (n + m)) (snd kv) = Some al"
    using m assms(2) al by simp
  then have "al \<in> set (altitudeAlerts this db clock n (map (\<lambda>kv. Some (snd kv)) hs))"
    unfolding altitudeAlerts_mem by blast
  with al show ?thesis by blast
qed

lemma altitudeAlerts_callsigns_distinct:
  assumes "distinct (map (\<lambda>kv. ph_callsign (snd kv)) hs)"
  shows "distinct (map aa_callsign (altitudeAlerts this db clock n (map (\<lambda>kv. Some (snd kv)) hs)))"
  using assms
proof (induction hs arbitrary: n)
  case Nil
  then show ?case by simp
next
  case (Cons kv hs)
  then have IH: "distinct (map aa_callsign
                   (altitudeAlerts this db clock (Suc n) (map (\<lambda>kv. Some (snd kv)) hs)))"
    and fresh: "ph_callsign (snd kv) \<notin> (\<lambda>kv. ph_callsign (snd kv)) ` set hs" by simp_all
  have rest: "aa_callsign x \<noteq> ph_callsign (snd kv)"
    if "x \<in> set (altitudeAlerts this db clock (Suc n) (map (\<lambda>kv. Some (snd kv)) hs))" for x
  proof -
    from altitudeAlerts_origin [OF that] obtain kv' now where
      kv': "kv' \<in> set hs" and x: "alertOf this db now (snd kv') = Some x" by blast
    have c: "aa_callsign x = ph_callsign (snd kv')" using alertOf_Some(2) [OF x] .
    have i: "ph_callsign (snd kv') \<in> (\<lambda>kv. ph_callsign (snd kv)) ` set hs"
      using kv' by (rule imageI)
    show ?thesis
    proof
      assume "aa_callsign x = ph_callsign (snd kv)"
      with c have "ph_callsign (snd kv) = ph_callsign (snd kv')" by simp
      with i fresh show False by simp
    qed
  qed
  show ?case
  proof (cases "monitored (snd kv)")
    case False
    then show ?thesis using IH by simp
  next
    case True
    show ?thesis
    proof (cases "alertOf this db (clock n) (snd kv)")
      case None
      then show ?thesis using IH True by simp
    next
      case (Some al)
      have c: "aa_callsign al = ph_callsign (snd kv)" using alertOf_Some(2) [OF Some] .
      have "aa_callsign al \<notin> aa_callsign `
              set (altitudeAlerts this db clock (Suc n) (map (\<lambda>kv. Some (snd kv)) hs))"
      proof
        assume "aa_callsign al \<in> aa_callsign `
              set (altitudeAlerts this db clock (Suc n) (map (\<lambda>kv. Some (snd kv)) hs))"
        then obtain x where
          "x \<in> set (altitudeAlerts this db clock (Suc n) (map (\<lambda>kv. Some (snd kv)) hs))"
          "aa_callsign x = aa_callsign al" by auto
        with rest [of x] c show False by simp
      qed
      then show ?thesis using IH True Some by simp
    qed
  qed
qed

lemma nat_to_string_digits: "set (nat_to_string n) \<subseteq> set ''0123456789''"
proof (induction n rule: nat_to_string.induct)
  case (1 n)
  show ?case
  proof (cases "n < 10")
    case True
    then have "''0123456789'' ! n \<in> set ''0123456789''" by (intro nth_mem) simp
    then show ?thesis using True by (subst nat_to_string.simps) simp
  next
    case False
    have "n mod 10 < 10" by simp
    then have "''0123456789'' ! (n mod 10) \<in> set ''0123456789''" by (intro nth_mem) simp
    then show ?thesis using False 1 by (subst nat_to_string.simps) simp
  qed
qed

lemma nat_to_string_no_dash: "CHR ''-'' \<notin> set (nat_to_string n)"
  using nat_to_string_digits [of n] by auto

lemma split_at_last:
  assumes "xs @ c # ds = ys @ c # es" and "c \<notin> set ds" and "c \<notin> set es"
  shows "xs = ys"
proof -
  from assms(1) obtain us where
    "(xs = ys @ us \<and> us @ c # ds = c # es) \<or> (xs @ us = ys \<and> c # ds = us @ c # es)"
    by (auto simp: append_eq_append_conv2)
  then show ?thesis
  proof
    assume a: "xs = ys @ us \<and> us @ c # ds = c # es"
    show ?thesis
    proof (cases us)
      case Nil
      with a show ?thesis by simp
    next
      case (Cons u us')
      with a have "us' @ c # ds = es" by simp
      then have "c \<in> set es" by auto
      with assms(3) show ?thesis by contradiction
    qed
  next
    assume a: "xs @ us = ys \<and> c # ds = us @ c # es"
    show ?thesis
    proof (cases us)
      case Nil
      with a show ?thesis by simp
    next
      case (Cons u us')
      with a have "ds = us' @ c # es" by simp
      then have "c \<in> set ds" by auto
      with assms(2) show ?thesis by contradiction
    qed
  qed
qed

lemma alert_id_callsign:
  assumes "cs @ ''-'' @ nat_to_string t = cs' @ ''-'' @ nat_to_string t'"
  shows "cs = cs'"
  using assms split_at_last [of cs "CHR ''-''" "nat_to_string t" cs' "nat_to_string t'"]
    nat_to_string_no_dash by simp

lemma strings_altitude_storeAlert:
  "strings (altitude_storeAlert r a)
   = (strings r)(''alert:low-altitude:'' @ aa_id a \<mapsto> (AltitudeJson a, 300))"
  by (simp add: altitude_storeAlert_def redis_set_def redis_lPush_def redis_lTrim_def Let_def)

lemma strings_foldl_other:
  assumes "\<forall>a \<in> set as. key \<noteq> ''alert:low-altitude:'' @ aa_id a"
  shows "strings (foldl altitude_storeAlert r as) key = strings r key"
  using assms
  by (induction as arbitrary: r rule: rev_induct) (simp_all add: strings_altitude_storeAlert)

lemma notin_image_neq: "f a \<notin> f ` S \<Longrightarrow> x \<in> S \<Longrightarrow> f x \<noteq> f a"
  by (metis imageI)

lemma strings_foldl_stored:
  assumes "distinct (map aa_id as)" and "al \<in> set as"
  shows "strings (foldl altitude_storeAlert r as) (''alert:low-altitude:'' @ aa_id al)
         = Some (AltitudeJson al, 300)"
  using assms
proof (induction as rule: rev_induct)
  case Nil
  then show ?case by simp
next
  case (snoc a as)
  show ?case
  proof (cases "al = a")
    case True
    then show ?thesis by (simp add: strings_altitude_storeAlert)
  next
    case False
    with snoc.prems have mem: "al \<in> set as" and d: "distinct (map aa_id as)"
      and n: "aa_id a \<notin> aa_id ` set as" by simp_all
    have "aa_id al \<noteq> aa_id a" using n mem by (rule notin_image_neq)
    then show ?thesis using snoc.IH [OF d mem] by (simp add: strings_altitude_storeAlert)
  qed
qed

lemma distinct_map_transfer:
  assumes "distinct (map f xs)"
    and "\<And>x y. x \<in> set xs \<Longrightarrow> y \<in> set xs \<Longrightarrow> g x = g y \<Longrightarrow> f x = f y"
  shows "distinct (map g xs)"
proof -
  from assms(1) have d: "distinct xs" and i: "inj_on f (set xs)" by (simp_all add: distinct_map)
  have "inj_on g (set xs)"
  proof (rule inj_onI)
    fix x y assume "x \<in> set xs" "y \<in> set xs" "g x = g y"
    then show "x = y" using assms(2) [of x y] i by (auto dest: inj_onD)
  qed
  with d show ?thesis by (simp add: distinct_map)
qed

lemma filter_distinct_singleton:
  assumes "distinct (map f xs)" and "x \<in> set xs"
  shows "filter (\<lambda>y. f y = f x) xs = [x]"
  using assms
proof (induction xs)
  case Nil
  then show ?case by simp
next
  case (Cons z zs)
  show ?case
  proof (cases "x = z")
    case True
    have "f y \<noteq> f z" if "y \<in> set zs" for y
      using Cons.prems(1) that notin_image_neq [of f z "set zs" y] by simp
    then have "filter (\<lambda>y. f y = f z) zs = []"
      by (simp add: filter_empty_conv)
    with True show ?thesis by simp
  next
    case False
    with Cons.prems have "x \<in> set zs" "distinct (map f zs)" "f z \<notin> f ` set zs" by simp_all
    then have "f x \<noteq> f z" using notin_image_neq [of f z "set zs" x] by simp
    then have "f z \<noteq> f x" by simp
    then show ?thesis using Cons.IH \<open>x \<in> set zs\<close> \<open>distinct (map f zs)\<close> by simp
  qed
qed

lemma altitudeAlerts_ids_distinct:
  assumes "distinct (map (\<lambda>kv. ph_callsign (snd kv)) hs)"
  shows "distinct (map aa_id (altitudeAlerts this db clock n (map (\<lambda>kv. Some (snd kv)) hs)))"
proof (rule distinct_map_transfer [OF altitudeAlerts_callsigns_distinct [OF assms]])
  fix x y
  assume x: "x \<in> set (altitudeAlerts this db clock n (map (\<lambda>kv. Some (snd kv)) hs))"
    and y: "y \<in> set (altitudeAlerts this db clock n (map (\<lambda>kv. Some (snd kv)) hs))"
    and eq: "aa_id x = aa_id y"
  from altitudeAlerts_origin [OF x] obtain kx tx where
    "kx \<in> set hs" and ax: "alertOf this db tx (snd kx) = Some x" by blast
  from altitudeAlerts_origin [OF y] obtain ky ty where
    "ky \<in> set hs" and ay: "alertOf this db ty (snd ky) = Some y" by blast
  have "aa_id x = aa_callsign x @ ''-'' @ nat_to_string tx"
    using alertOf_Some(2,3) [OF ax] by simp
  moreover have "aa_id y = aa_callsign y @ ''-'' @ nat_to_string ty"
    using alertOf_Some(2,3) [OF ay] by simp
  ultimately show "aa_callsign x = aa_callsign y"
    using eq alert_id_callsign [of "aa_callsign x" tx "aa_callsign y" ty] by simp
qed

lemma message_contains:
  "sublist ''below safe altitude outside airport zone''
     ''Aircraft flying below safe altitude outside airport zone''"
proof -
  have "''Aircraft flying below safe altitude outside airport zone''
        = ''Aircraft flying '' @ ''below safe altitude outside airport zone'' @ []" by simp
  then show ?thesis unfolding sublist_def by blast
qed

lemma calculateDistance_meridian:
  assumes "lat1 \<le> lat2" and "lat2 - lat1 < 180"
  shows "calculateDistance lat1 lon lat2 lon = 6371 * toRad (lat2 - lat1)"
proof -
  define th where "th = toRad (lat2 - lat1) / 2"
  have th0: "0 \<le> th" using assms(1) by (simp add: th_def toRad_def)
  have "(lat2 - lat1) * pi < 180 * pi"
    using assms(2) by (intro mult_strict_right_mono) simp_all
  then have th1: "th < pi / 2" by (simp add: th_def toRad_def)
  have s: "0 \<le> sin th" using th0 th1 pi_gt_zero by (intro sin_ge_zero) simp_all
  have c: "0 < cos th" using th0 th1 by (intro cos_gt_zero_pi) simp_all
  have a: "sin th * sin th +
           cos (toRad lat1) * cos (toRad lat2) * sin (toRad (lon - lon) / 2) *
           sin (toRad (lon - lon) / 2) = sin th * sin th"
    by (simp add: toRad_def)
  have sq: "sqrt (sin th * sin th) = sin th" using s by simp
  have "1 - sin th * sin th = cos th * cos th"
    using cos_squared_eq [of th] by (simp add: power2_eq_square)
  then have cq: "sqrt (1 - sin th * sin th) = cos th" using c by simp
  have "atan2 (sin th) (cos th) = arctan (tan th)"
    using c by (simp add: atan2_pos tan_def)
  also have "\<dots> = th" using th0 th1 by (intro arctan_tan) simp_all
  finally have at: "atan2 (sin th) (cos th) = th" .
  have "calculateDistance lat1 lon lat2 lon = 6371 * (2 * th)"
    unfolding calculateDistance_def Let_def th_def [symmetric] a sq cq at ..
  then show ?thesis by (simp add: th_def)
qed

lemma low_store_ok: "position_store low_store"
  by (simp add: position_store_def low_store_def lowA_def lowB_def highC_def groundD_def)

lemma lowA_outside: "\<not> in_zone demo_graph (ph_latitude lowA) (ph_longitude lowA)"
proof -
  have "calculateDistance 50.25 8.5622 50.0379 8.5622 = calculateDistance 50.0379 8.5622 50.25 8.5622"
    by (rule calculateDistance_sym)
  also have "\<dots> = 6371 * toRad (50.25 - 50.0379)"
    by (rule calculateDistance_meridian) simp_all
  finally have d: "calculateDistance 50.25 8.5622 50.0379 8.5622 = 6371 * toRad (50.25 - 50.0379)" .
  have "10 \<le> 6371 * toRad (50.25 - 50.0379)"
    using pi_ge_3 by (simp add: toRad_def)
  then have "\<not> 1000 * calculateDistance 50.25 8.5622 50.0379 8.5622 < 10000"
    unfolding d by simp
  then show ?thesis
    by (simp add: in_zone_def demo_graph_def lowA_def)
qed

lemma centre_inside: "in_zone demo_graph 50.0379 8.5622"
  using calculateDistance_same [of "50.0379" "8.5622"]
  by (simp add: in_zone_def demo_graph_def)

lemma infoOf_fields:
  "ai_callsign (infoOf db data) = ph_callsign data"
  "ai_altitude (infoOf db data) = ph_altitude data"
  "ai_latitude (infoOf db data) = ph_latitude data"
  "ai_longitude (infoOf db data) = ph_longitude data"
  "ai_inAirportZone (infoOf db data) \<longleftrightarrow> in_zone db (ph_latitude data) (ph_longitude data)"
  by (simp_all add: infoOf_def Let_def getAirportZoneInfo_inZone)

section \<open>Collision detection: the claims\<close>

text \<open>
  C1. For two distinct rows of the position store that are kept (a callsign, not on the
  ground), one cycle of \<^verbatim>\<open>checkCollisionRisks\<close> returns an alert naming the two callsigns
  if and only if their Haversine distance is strictly below \<^verbatim>\<open>SAFE_DISTANCE_KM\<close> and the
  absolute difference of their altitudes is strictly below \<^verbatim>\<open>SAFE_ALTITUDE_DIFF_FT\<close>. So a
  pair at 5 km or more, or 1000 ft or more apart, gets no alert under the defaults.
\<close>

theorem collision_alert_iff_unsafe:
  assumes store: "position_store r"
    and e1: "(key1, data1) \<in> set (hashes r)" and e2: "(key2, data2) \<in> set (hashes r)"
    and ne: "key1 \<noteq> key2"
    and m1: "monitored data1" and m2: "monitored data2"
  shows "(\<exists>al \<in> set (fst (checkCollisionRisks this clock r)).
            alert_for al (ph_callsign data1) (ph_callsign data2))
         \<longleftrightarrow> calculateDistance (ph_latitude data1) (ph_longitude data1)
                 (ph_latitude data2) (ph_longitude data2) < SAFE_DISTANCE_KM this \<and>
               \<bar>ph_altitude data1 - ph_altitude data2\<bar> < SAFE_ALTITUDE_DIFF_FT this"
proof -
  let ?ps = "map toAircraft (filter monitored (map snd (hashes r)))"
  have p: "toAircraft data1 \<in> set ?ps" using e1 m1 by force
  have q: "toAircraft data2 \<in> set ?ps" using e2 m2 by force
  have "ph_callsign data1 \<noteq> ph_callsign data2"
    using position_store_key [OF store e1] position_store_key [OF store e2] ne by auto
  then have c: "ac_callsign (toAircraft data1) \<noteq> ac_callsign (toAircraft data2)"
    by (simp add: toAircraft_def)
  show ?thesis
    using outerAlerts_pair_iff [OF monitored_aircraft_distinct [OF store] p q c, of this clock 0]
    by (simp add: checkCollisionRisks_alerts [OF store] toAircraft_def)
qed

theorem collision_alert_iff_unsafe_witness:
  "position_store scenario_store \<and>
   (''aircraft:DLH400:position'', scenarioA) \<in> set (hashes scenario_store) \<and>
   (''aircraft:BAW902:position'', scenarioB) \<in> set (hashes scenario_store) \<and>
   monitored scenarioA \<and> monitored scenarioB \<and>
   (\<exists>al \<in> set (fst (checkCollisionRisks collisionService (\<lambda>i j. 0) scenario_store)).
      alert_for al ''DLH400'' ''BAW902'')"
proof -
  have e1: "(''aircraft:DLH400:position'', scenarioA) \<in> set (hashes scenario_store)"
    and e2: "(''aircraft:BAW902:position'', scenarioB) \<in> set (hashes scenario_store)"
    by (simp_all add: scenario_store_def)
  have ne: "''aircraft:DLH400:position'' \<noteq> ''aircraft:BAW902:position''" by simp
  have "\<exists>al \<in> set (fst (checkCollisionRisks collisionService (\<lambda>i j. 0) scenario_store)).
          alert_for al (ph_callsign scenarioA) (ph_callsign scenarioB)"
    using collision_alert_iff_unsafe [OF scenario_store_ok e1 e2 ne scenario_monitored,
        of collisionService "\<lambda>i j. 0"] scenario_unsafe
    by blast
  then show ?thesis
    using scenario_store_ok e1 e2 scenario_monitored
    by (simp add: scenarioA_def scenarioB_def)
qed

text \<open>
  C2. For an unsafe pair of kept rows, the cycle returns an alert for the pair, and every
  alert for the pair has the severity of the first matching rule: CRITICAL when the distance
  is below 2 km and the altitude difference below 500 ft, otherwise HIGH when the distance is
  below 3 km and the altitude difference below 700 ft, otherwise MEDIUM.
\<close>

theorem collision_severity_first_match:
  assumes store: "position_store r"
    and e1: "(key1, data1) \<in> set (hashes r)" and e2: "(key2, data2) \<in> set (hashes r)"
    and ne: "key1 \<noteq> key2"
    and m1: "monitored data1" and m2: "monitored data2"
    and unsafe: "calculateDistance (ph_latitude data1) (ph_longitude data1)
                   (ph_latitude data2) (ph_longitude data2) < SAFE_DISTANCE_KM this"
                "\<bar>ph_altitude data1 - ph_altitude data2\<bar> < SAFE_ALTITUDE_DIFF_FT this"
  shows "(\<exists>al \<in> set (fst (checkCollisionRisks this clock r)).
            alert_for al (ph_callsign data1) (ph_callsign data2)) \<and>
         (\<forall>al \<in> set (fst (checkCollisionRisks this clock r)).
            alert_for al (ph_callsign data1) (ph_callsign data2) \<longrightarrow>
            ca_severity al =
              (let distance = calculateDistance (ph_latitude data1) (ph_longitude data1)
                                (ph_latitude data2) (ph_longitude data2);
                   altitudeDiff = \<bar>ph_altitude data1 - ph_altitude data2\<bar>
               in if distance < 2 \<and> altitudeDiff < 500 then CRITICAL
                  else if distance < 3 \<and> altitudeDiff < 700 then HIGH
                  else MEDIUM))"
proof -
  let ?ps = "map toAircraft (filter monitored (map snd (hashes r)))"
  let ?p = "toAircraft data1" and ?q = "toAircraft data2"
  have p: "?p \<in> set ?ps" using e1 m1 by force
  have q: "?q \<in> set ?ps" using e2 m2 by force
  have "ph_callsign data1 \<noteq> ph_callsign data2"
    using position_store_key [OF store e1] position_store_key [OF store e2] ne by auto
  then have c: "ac_callsign ?p \<noteq> ac_callsign ?q"
    by (simp add: toAircraft_def)
  note d = monitored_aircraft_distinct [OF store]
  have ex: "\<exists>al \<in> set (fst (checkCollisionRisks this clock r)).
              alert_for al (ph_callsign data1) (ph_callsign data2)"
    using outerAlerts_pair_iff [OF d p q c, of this clock 0] unsafe
    by (simp add: checkCollisionRisks_alerts [OF store] toAircraft_def)
  have "\<forall>al \<in> set (fst (checkCollisionRisks this clock r)).
          alert_for al (ph_callsign data1) (ph_callsign data2) \<longrightarrow>
          ca_severity al =
            collision_calculateSeverity
              (calculateDistance (ph_latitude data1) (ph_longitude data1)
                 (ph_latitude data2) (ph_longitude data2))
              \<bar>ph_altitude data1 - ph_altitude data2\<bar>"
    using outerAlerts_pair_severity [OF d p q, of _ this clock 0]
    by (simp add: checkCollisionRisks_alerts [OF store] toAircraft_def)
  then show ?thesis using ex by (simp add: collision_calculateSeverity_def Let_def)
qed

theorem collision_severity_first_match_witness:
  "position_store scenario_store \<and> monitored scenarioA \<and> monitored scenarioB \<and>
   (\<exists>al \<in> set (fst (checkCollisionRisks collisionService (\<lambda>i j. 0) scenario_store)).
      alert_for al ''DLH400'' ''BAW902'' \<and> ca_severity al = MEDIUM)"
proof -
  have e1: "(''aircraft:DLH400:position'', scenarioA) \<in> set (hashes scenario_store)"
    and e2: "(''aircraft:BAW902:position'', scenarioB) \<in> set (hashes scenario_store)"
    by (simp_all add: scenario_store_def)
  have ne: "''aircraft:DLH400:position'' \<noteq> ''aircraft:BAW902:position''" by simp
  have u: "calculateDistance (ph_latitude scenarioA) (ph_longitude scenarioA)
             (ph_latitude scenarioB) (ph_longitude scenarioB) < SAFE_DISTANCE_KM collisionService"
    "\<bar>ph_altitude scenarioA - ph_altitude scenarioB\<bar> < SAFE_ALTITUDE_DIFF_FT collisionService"
    using scenario_unsafe by simp_all
  have far: "\<not> calculateDistance (ph_latitude scenarioA) (ph_longitude scenarioA)
                 (ph_latitude scenarioB) (ph_longitude scenarioB) < 3"
    using scenario_distance by (simp add: scenarioA_def scenarioB_def)
  note t = collision_severity_first_match [OF scenario_store_ok e1 e2 ne scenario_monitored u,
      of "\<lambda>i j. 0"]
  from t obtain al where
    al: "al \<in> set (fst (checkCollisionRisks collisionService (\<lambda>i j. 0) scenario_store))"
      "alert_for al (ph_callsign scenarioA) (ph_callsign scenarioB)"
    by blast
  with t far have "ca_severity al = MEDIUM" by (auto simp: Let_def)
  with al show ?thesis
    using scenario_store_ok scenario_monitored
    by (auto simp: scenarioA_def scenarioB_def)
qed

text \<open>
  C5. \<^verbatim>\<open>checkPairCollision\<close> is symmetric: it returns an alert for (A, B) exactly when it
  does for (B, A), and the two alerts carry the same distance, altitude difference and
  severity. One cycle over a well-formed position store returns at most one alert for each
  unordered pair of callsigns.
\<close>

theorem collision_symmetric_duplicate_free:
  "(checkPairCollision this now A B = None \<longleftrightarrow> checkPairCollision this now' B A = None) \<and>
   map_option (\<lambda>al. (ca_distance al, ca_altitudeDiff al, ca_severity al))
     (checkPairCollision this now A B)
   = map_option (\<lambda>al. (ca_distance al, ca_altitudeDiff al, ca_severity al))
       (checkPairCollision this now' B A) \<and>
   (position_store r \<longrightarrow> distinct (map alert_pair (fst (checkCollisionRisks this clock r))))"
proof (intro conjI impI)
  note s = checkPairCollision_sym [of this now A B now']
  show "map_option (\<lambda>al. (ca_distance al, ca_altitudeDiff al, ca_severity al))
          (checkPairCollision this now A B)
        = map_option (\<lambda>al. (ca_distance al, ca_altitudeDiff al, ca_severity al))
            (checkPairCollision this now' B A)"
    by (rule s)
  show "checkPairCollision this now A B = None \<longleftrightarrow> checkPairCollision this now' B A = None"
  proof (cases "checkPairCollision this now A B")
    case None
    with s show ?thesis by (cases "checkPairCollision this now' B A") simp_all
  next
    case (Some x)
    with s show ?thesis by (cases "checkPairCollision this now' B A") simp_all
  qed
next
  assume store: "position_store r"
  show "distinct (map alert_pair (fst (checkCollisionRisks this clock r)))"
    unfolding checkCollisionRisks_alerts [OF store]
    by (rule outerAlerts_distinct [OF monitored_aircraft_distinct [OF store]])
qed

theorem collision_symmetric_duplicate_free_witness:
  "position_store cluster_store \<and>
   length (fst (checkCollisionRisks collisionService (\<lambda>i j. 0) cluster_store)) = 3 \<and>
   distinct (map alert_pair (fst (checkCollisionRisks collisionService (\<lambda>i j. 0) cluster_store)))"
proof -
  have "length (map (\<lambda>al. (ca_aircraft1 al, ca_aircraft2 al, ca_severity al))
          (fst (checkCollisionRisks collisionService (\<lambda>i j. 0) cluster_store))) = 3"
    unfolding cluster_alerts by simp
  then have "length (fst (checkCollisionRisks collisionService (\<lambda>i j. 0) cluster_store)) = 3"
    by simp
  then show ?thesis
    using collision_symmetric_duplicate_free [of collisionService 0 "toAircraft clusterA"
        "toAircraft clusterB" 0 cluster_store "\<lambda>i j. 0"] cluster_store_ok
    by blast
qed

text \<open>
  C9, as the specification states it, fails: for the aircraft at (50.1000, 8.6000), 25000 ft
  and (50.1300, 8.6100), 25500 ft the severity of the alert is not HIGH.
\<close>

theorem scenario_alert_not_high:
  "map_option ca_severity
     (checkPairCollision collisionService 0 (toAircraft scenarioA) (toAircraft scenarioB))
   \<noteq> Some HIGH"
  using scenario_pair [of "toAircraft scenarioA" "toAircraft scenarioB" 0]
  by (auto simp: toAircraft_def scenarioA_def scenarioB_def)

text \<open>
  C9, amended. The two aircraft are between 3 km and 5 km apart and 500 ft apart in
  altitude: the pair is unsafe, \<^verbatim>\<open>checkPairCollision\<close> returns an alert whatever the
  callsigns, and its severity is MEDIUM, because the distance is not below 3 km. A cycle over
  the store that holds the two aircraft returns this one alert.
\<close>

theorem scenario_alert_medium:
  "map_option ca_severity
     (checkPairCollision collisionService now
        (p\<lparr>ac_latitude := 50.1, ac_longitude := 8.6, ac_altitude := 25000\<rparr>)
        (q\<lparr>ac_latitude := 50.13, ac_longitude := 8.61, ac_altitude := 25500\<rparr>))
   = Some MEDIUM \<and>
   map (\<lambda>al. (ca_aircraft1 al, ca_aircraft2 al, ca_severity al))
     (fst (checkCollisionRisks collisionService clock scenario_store))
   = [(''DLH400'', ''BAW902'', MEDIUM)]"
proof
  show "map_option ca_severity
     (checkPairCollision collisionService now
        (p\<lparr>ac_latitude := 50.1, ac_longitude := 8.6, ac_altitude := 25000\<rparr>)
        (q\<lparr>ac_latitude := 50.13, ac_longitude := 8.61, ac_altitude := 25500\<rparr>))
   = Some MEDIUM"
    using scenario_pair [of "p\<lparr>ac_latitude := 50.1, ac_longitude := 8.6, ac_altitude := 25000\<rparr>"
        "q\<lparr>ac_latitude := 50.13, ac_longitude := 8.61, ac_altitude := 25500\<rparr>" now]
    by auto
  show "map (\<lambda>al. (ca_aircraft1 al, ca_aircraft2 al, ca_severity al))
     (fst (checkCollisionRisks collisionService clock scenario_store))
   = [(''DLH400'', ''BAW902'', MEDIUM)]"
    by (rule scenario_cycle)
qed

section \<open>Altitude check: the claims\<close>

text \<open>
  C3. For a kept row of the position store whose altitude is strictly below
  \<^verbatim>\<open>MIN_SAFE_ALTITUDE_FT\<close> and whose point lies in no zone, one cycle of
  \<^verbatim>\<open>checkLowAltitudeAircraft\<close> returns exactly one alert with its callsign. Its severity is
  CRITICAL below 500 ft, HIGH from 500 ft to below 750 ft and MEDIUM otherwise, its message
  contains \<^verbatim>\<open>below safe altitude outside airport zone\<close>, and after the cycle the store holds
  it under the key of its identifier, with an expiry of 300 seconds.
\<close>

theorem low_altitude_alert_outside_zone:
  assumes store: "position_store r"
    and e: "(key, data) \<in> set (hashes r)"
    and m: "monitored data"
    and low: "ph_altitude data < MIN_SAFE_ALTITUDE_FT this"
    and out: "\<not> in_zone db (ph_latitude data) (ph_longitude data)"
  shows "\<exists>al. filter (\<lambda>x. aa_callsign x = ph_callsign data)
                (res_alerts (fst (checkLowAltitudeAircraft this db clock r))) = [al] \<and>
              aa_altitude al = ph_altitude data \<and>
              aa_severity al = (if ph_altitude data < 500 then CRITICAL
                                else if ph_altitude data < 750 then HIGH
                                else MEDIUM) \<and>
              sublist ''below safe altitude outside airport zone'' (aa_message al) \<and>
              \<not> aa_inAirportZone al \<and>
              strings (snd (checkLowAltitudeAircraft this db clock r))
                (''alert:low-altitude:'' @ aa_id al) = Some (AltitudeJson al, 300)"
proof -
  let ?as = "res_alerts (fst (checkLowAltitudeAircraft this db clock r))"
  have as: "?as = altitudeAlerts this db clock 0 (map (\<lambda>kv. Some (snd kv)) (hashes r))"
    by (rule position_store_alerts [OF store])
  note cs = position_store_callsigns [OF store]
  from altitudeAlerts_present [of "(key, data)" "hashes r" this db clock 0] e m low
  obtain al now where mem: "al \<in> set ?as" and al: "alertOf this db now data = Some al"
    unfolding as by auto
  note f = alertOf_Some [OF al]
  have "distinct (map aa_callsign ?as)"
    unfolding as by (rule altitudeAlerts_callsigns_distinct [OF cs])
  then have "filter (\<lambda>x. aa_callsign x = aa_callsign al) ?as = [al]"
    using mem by (rule filter_distinct_singleton)
  then have one: "filter (\<lambda>x. aa_callsign x = ph_callsign data) ?as = [al]"
    using f(2) by simp
  have sev: "aa_severity al = altitude_calculateSeverity (ph_altitude data)"
    using f(6) out by simp
  have msg: "aa_message al = ''Aircraft flying below safe altitude outside airport zone''"
    using f(7) out by simp
  have "distinct (map aa_id ?as)"
    unfolding as by (rule altitudeAlerts_ids_distinct [OF cs])
  then have d: "distinct (map aa_id (filter (\<lambda>a. aa_severity a \<noteq> SAFE) ?as))"
    by (rule distinct_map_filter)
  have "al \<in> set (filter (\<lambda>a. aa_severity a \<noteq> SAFE) ?as)"
    using mem sev by simp
  then have stored: "strings (snd (checkLowAltitudeAircraft this db clock r))
                       (''alert:low-altitude:'' @ aa_id al) = Some (AltitudeJson al, 300)"
    unfolding checkLowAltitudeAircraft_store by (rule strings_foldl_stored [OF d])
  have "aa_severity al = (if ph_altitude data < 500 then CRITICAL
                          else if ph_altitude data < 750 then HIGH else MEDIUM)"
    using sev by (simp add: altitude_calculateSeverity_def)
  moreover have "sublist ''below safe altitude outside airport zone'' (aa_message al)"
    unfolding msg by (rule message_contains)
  moreover have "\<not> aa_inAirportZone al" using f(5) out by simp
  ultimately show ?thesis using one f(4) stored by blast
qed

theorem low_altitude_alert_outside_zone_witness:
  "position_store low_store \<and>
   (''aircraft:EZY8492:position'', lowA) \<in> set (hashes low_store) \<and>
   monitored lowA \<and>
   ph_altitude lowA < MIN_SAFE_ALTITUDE_FT altitudeCheckService \<and>
   \<not> in_zone demo_graph (ph_latitude lowA) (ph_longitude lowA) \<and>
   (\<exists>al. filter (\<lambda>x. aa_callsign x = ''EZY8492'')
            (res_alerts (fst (checkLowAltitudeAircraft altitudeCheckService demo_graph
                                (\<lambda>n. 0) low_store))) = [al] \<and>
         aa_altitude al = 450 \<and> aa_severity al = CRITICAL \<and>
         sublist ''below safe altitude outside airport zone'' (aa_message al) \<and>
         \<not> aa_inAirportZone al \<and>
         strings (snd (checkLowAltitudeAircraft altitudeCheckService demo_graph (\<lambda>n. 0) low_store))
           (''alert:low-altitude:'' @ aa_id al) = Some (AltitudeJson al, 300))"
proof -
  have e: "(''aircraft:EZY8492:position'', lowA) \<in> set (hashes low_store)"
    by (simp add: low_store_def)
  have m: "monitored lowA" by (simp add: monitored_def lowA_def)
  have low: "ph_altitude lowA < MIN_SAFE_ALTITUDE_FT altitudeCheckService"
    by (simp add: lowA_def altitudeCheckService_def)
  show ?thesis
    using low_altitude_alert_outside_zone [OF low_store_ok e m low lowA_outside, of "\<lambda>n. 0"]
      low_store_ok e m low lowA_outside
    by (simp add: lowA_def)
qed

text \<open>
  C4. For a kept row below the threshold whose point lies inside a zone, the returned list
  has an entry with its callsign, severity SAFE and the names of the airport and of a zone
  that contains the point. No write is made for it: the key of this entry holds after the
  cycle what it held before, the store after the cycle is the store before it with only the
  alerts that are not SAFE written, and a cycle whose entries are all SAFE leaves the store
  as it was.
\<close>

theorem safe_entry_inside_zone_not_stored:
  assumes store: "position_store r"
    and e: "(key, data) \<in> set (hashes r)"
    and m: "monitored data"
    and low: "ph_altitude data < MIN_SAFE_ALTITUDE_FT this"
    and inz: "in_zone db (ph_latitude data) (ph_longitude data)"
  shows "(\<exists>al \<in> set (res_alerts (fst (checkLowAltitudeAircraft this db clock r))).
            aa_callsign al = ph_callsign data \<and> aa_severity al = SAFE \<and> aa_inAirportZone al \<and>
            (\<exists>(a, z) \<in> set (has_zone db).
               point_distance db (ph_latitude data) (ph_longitude data)
                 (z_latitude z) (z_longitude z) < z_radiusMeters z \<and>
               aa_airportName al = Some (apt_name a) \<and> aa_zoneName al = Some (z_name z)) \<and>
            strings (snd (checkLowAltitudeAircraft this db clock r))
              (''alert:low-altitude:'' @ aa_id al)
            = strings r (''alert:low-altitude:'' @ aa_id al)) \<and>
         snd (checkLowAltitudeAircraft this db clock r)
         = foldl altitude_storeAlert r
             (filter (\<lambda>a. aa_severity a \<noteq> SAFE)
                (res_alerts (fst (checkLowAltitudeAircraft this db clock r)))) \<and>
         ((\<forall>a \<in> set (res_alerts (fst (checkLowAltitudeAircraft this db clock r))).
             aa_severity a = SAFE)
          \<longrightarrow> snd (checkLowAltitudeAircraft this db clock r) = r)"
proof (intro conjI impI)
  let ?as = "res_alerts (fst (checkLowAltitudeAircraft this db clock r))"
  let ?r' = "snd (checkLowAltitudeAircraft this db clock r)"
  have as: "?as = altitudeAlerts this db clock 0 (map (\<lambda>kv. Some (snd kv)) (hashes r))"
    by (rule position_store_alerts [OF store])
  note cs = position_store_callsigns [OF store]
  show frame: "?r' = foldl altitude_storeAlert r (filter (\<lambda>a. aa_severity a \<noteq> SAFE) ?as)"
    by (rule checkLowAltitudeAircraft_store)
  from altitudeAlerts_present [of "(key, data)" "hashes r" this db clock 0] e m low
  obtain al now where mem: "al \<in> set ?as" and al: "alertOf this db now data = Some al"
    unfolding as by auto
  note f = alertOf_Some [OF al]
  have sev: "aa_severity al = SAFE" using f(6) inz by simp
  have zone: "aa_inAirportZone al" using f(5) inz by simp
  have names: "\<exists>(a, z) \<in> set (has_zone db).
                 point_distance db (ph_latitude data) (ph_longitude data)
                   (z_latitude z) (z_longitude z) < z_radiusMeters z \<and>
                 aa_airportName al = Some (apt_name a) \<and> aa_zoneName al = Some (z_name z)"
    using getAirportZoneInfo_names [OF inz] f(8) [OF inz] by simp
  have ids: "distinct (map aa_id ?as)"
    unfolding as by (rule altitudeAlerts_ids_distinct [OF cs])
  have "\<forall>a \<in> set (filter (\<lambda>a. aa_severity a \<noteq> SAFE) ?as).
          ''alert:low-altitude:'' @ aa_id al \<noteq> ''alert:low-altitude:'' @ aa_id a"
  proof
    fix a assume a: "a \<in> set (filter (\<lambda>a. aa_severity a \<noteq> SAFE) ?as)"
    then have "a \<in> set ?as" "a \<noteq> al" using sev by auto
    then have "aa_id al \<noteq> aa_id a"
      using distinct_map_eq [OF ids mem, of a] by auto
    then show "''alert:low-altitude:'' @ aa_id al \<noteq> ''alert:low-altitude:'' @ aa_id a"
      by simp
  qed
  then have same: "strings ?r' (''alert:low-altitude:'' @ aa_id al)
                   = strings r (''alert:low-altitude:'' @ aa_id al)"
    unfolding frame by (rule strings_foldl_other)
  show "\<exists>al \<in> set ?as.
          aa_callsign al = ph_callsign data \<and> aa_severity al = SAFE \<and> aa_inAirportZone al \<and>
          (\<exists>(a, z) \<in> set (has_zone db).
             point_distance db (ph_latitude data) (ph_longitude data)
               (z_latitude z) (z_longitude z) < z_radiusMeters z \<and>
             aa_airportName al = Some (apt_name a) \<and> aa_zoneName al = Some (z_name z)) \<and>
          strings ?r' (''alert:low-altitude:'' @ aa_id al)
          = strings r (''alert:low-altitude:'' @ aa_id al)"
    using mem f(2) sev zone names same by blast
  assume "\<forall>a \<in> set ?as. aa_severity a = SAFE"
  then have "filter (\<lambda>a. aa_severity a \<noteq> SAFE) ?as = []"
    by (simp add: filter_empty_conv)
  then show "?r' = r" using frame by simp
qed

theorem safe_entry_inside_zone_not_stored_witness:
  "position_store low_store \<and>
   (''aircraft:RYR7384:position'', lowB) \<in> set (hashes low_store) \<and>
   monitored lowB \<and>
   ph_altitude lowB < MIN_SAFE_ALTITUDE_FT altitudeCheckService \<and>
   in_zone demo_graph (ph_latitude lowB) (ph_longitude lowB) \<and>
   (\<exists>al \<in> set (res_alerts (fst (checkLowAltitudeAircraft altitudeCheckService demo_graph
                                   (\<lambda>n. 0) low_store))).
      aa_callsign al = ''RYR7384'' \<and> aa_severity al = SAFE \<and> aa_inAirportZone al \<and>
      aa_airportName al = Some ''Frankfurt Airport'' \<and> aa_zoneName al = Some ''Approach Zone'' \<and>
      strings (snd (checkLowAltitudeAircraft altitudeCheckService demo_graph (\<lambda>n. 0) low_store))
        (''alert:low-altitude:'' @ aa_id al) = None)"
proof -
  have e: "(''aircraft:RYR7384:position'', lowB) \<in> set (hashes low_store)"
    by (simp add: low_store_def)
  have m: "monitored lowB" by (simp add: monitored_def lowB_def)
  have low: "ph_altitude lowB < MIN_SAFE_ALTITUDE_FT altitudeCheckService"
    by (simp add: lowB_def altitudeCheckService_def)
  have inz: "in_zone demo_graph (ph_latitude lowB) (ph_longitude lowB)"
    using centre_inside by (simp add: lowB_def)
  have z: "has_zone demo_graph =
             [(\<lparr>apt_name = ''Frankfurt Airport'', apt_code = ''FRA'',
                 apt_latitude = 50.0379, apt_longitude = 8.5622\<rparr>,
               \<lparr>z_name = ''Approach Zone'', z_latitude = 50.0379, z_longitude = 8.5622,
                 z_radiusMeters = 10000\<rparr>)]"
    by (simp add: demo_graph_def)
  have s: "strings low_store = Map.empty" by (simp add: low_store_def)
  let ?run = "checkLowAltitudeAircraft altitudeCheckService demo_graph (\<lambda>n. 0) low_store"
  from safe_entry_inside_zone_not_stored [OF low_store_ok e m low inz, of "\<lambda>n. 0"]
  obtain al where mem: "al \<in> set (res_alerts (fst ?run))"
    and c: "aa_callsign al = ph_callsign lowB" "aa_severity al = SAFE" "aa_inAirportZone al"
    and names: "\<exists>(a, z) \<in> set (has_zone demo_graph).
                  point_distance demo_graph (ph_latitude lowB) (ph_longitude lowB)
                    (z_latitude z) (z_longitude z) < z_radiusMeters z \<and>
                  aa_airportName al = Some (apt_name a) \<and> aa_zoneName al = Some (z_name z)"
    and same: "strings (snd ?run) (''alert:low-altitude:'' @ aa_id al)
               = strings low_store (''alert:low-altitude:'' @ aa_id al)"
    by blast
  from names have n: "aa_airportName al = Some ''Frankfurt Airport''"
    "aa_zoneName al = Some ''Approach Zone''"
    unfolding z by simp_all
  from same have none: "strings (snd ?run) (''alert:low-altitude:'' @ aa_id al) = None"
    unfolding s by simp
  have "ph_callsign lowB = ''RYR7384''" by (simp add: lowB_def)
  with c have c': "aa_callsign al = ''RYR7384''" by simp
  from mem c' c(2,3) n none have
    "\<exists>al \<in> set (res_alerts (fst ?run)).
       aa_callsign al = ''RYR7384'' \<and> aa_severity al = SAFE \<and> aa_inAirportZone al \<and>
       aa_airportName al = Some ''Frankfurt Airport'' \<and> aa_zoneName al = Some ''Approach Zone'' \<and>
       strings (snd ?run) (''alert:low-altitude:'' @ aa_id al) = None"
    by blast
  with low_store_ok e m low inz show ?thesis by blast
qed

text \<open>
  C6. Every kept row of the position store appears exactly once in \<^verbatim>\<open>monitoredAircraft\<close>,
  with its altitude, its position and its zone membership, whatever its altitude;
  \<^verbatim>\<open>totalAircraft\<close> is the length of that list; and a row at or above the threshold has no
  alert in the returned list.
\<close>

theorem monitored_snapshot_complete:
  assumes store: "position_store r"
    and e: "(key, data) \<in> set (hashes r)"
    and m: "monitored data"
  shows "(\<exists>info. filter (\<lambda>i. ai_callsign i = ph_callsign data)
                    (res_monitoredAircraft (fst (checkLowAltitudeAircraft this db clock r)))
                  = [info] \<and>
                ai_altitude info = ph_altitude data \<and>
                ai_latitude info = ph_latitude data \<and>
                ai_longitude info = ph_longitude data \<and>
                (ai_inAirportZone info \<longleftrightarrow> in_zone db (ph_latitude data) (ph_longitude data))) \<and>
         res_totalAircraft (fst (checkLowAltitudeAircraft this db clock r))
           = length (res_monitoredAircraft (fst (checkLowAltitudeAircraft this db clock r))) \<and>
         (MIN_SAFE_ALTITUDE_FT this \<le> ph_altitude data \<longrightarrow>
            (\<forall>al \<in> set (res_alerts (fst (checkLowAltitudeAircraft this db clock r))).
               aa_callsign al \<noteq> ph_callsign data))"
proof (intro conjI impI ballI)
  let ?ms = "res_monitoredAircraft (fst (checkLowAltitudeAircraft this db clock r))"
  let ?as = "res_alerts (fst (checkLowAltitudeAircraft this db clock r))"
  have ms: "?ms = map (infoOf db) (filter monitored (map snd (hashes r)))"
    by (rule position_store_monitoredAircraft [OF store])
  have as: "?as = altitudeAlerts this db clock 0 (map (\<lambda>kv. Some (snd kv)) (hashes r))"
    by (rule position_store_alerts [OF store])
  note cs = position_store_callsigns [OF store]
  have "distinct (map ph_callsign (map snd (hashes r)))" using cs by (simp add: comp_def)
  then have "distinct (map ph_callsign (filter monitored (map snd (hashes r))))"
    by (rule distinct_map_filter)
  moreover have "ai_callsign \<circ> infoOf db = ph_callsign"
    by (rule ext) (simp add: infoOf_fields)
  ultimately have d: "distinct (map ai_callsign ?ms)" unfolding ms by simp
  have mem: "infoOf db data \<in> set ?ms" unfolding ms using e m by force
  have "filter (\<lambda>i. ai_callsign i = ai_callsign (infoOf db data)) ?ms = [infoOf db data]"
    using d mem by (rule filter_distinct_singleton)
  then show "\<exists>info. filter (\<lambda>i. ai_callsign i = ph_callsign data) ?ms = [info] \<and>
                ai_altitude info = ph_altitude data \<and>
                ai_latitude info = ph_latitude data \<and>
                ai_longitude info = ph_longitude data \<and>
                (ai_inAirportZone info \<longleftrightarrow> in_zone db (ph_latitude data) (ph_longitude data))"
    using infoOf_fields [of db data] by auto
  show "res_totalAircraft (fst (checkLowAltitudeAircraft this db clock r)) = length ?ms"
    by (simp add: checkLowAltitudeAircraft_eq Let_def)
  fix al
  assume high: "MIN_SAFE_ALTITUDE_FT this \<le> ph_altitude data" and al: "al \<in> set ?as"
  show "aa_callsign al \<noteq> ph_callsign data"
  proof
    assume eq: "aa_callsign al = ph_callsign data"
    from al obtain kv now where kv: "kv \<in> set (hashes r)"
      and a: "alertOf this db now (snd kv) = Some al"
      unfolding as using altitudeAlerts_origin by blast
    have "ph_callsign (snd kv) = ph_callsign (snd (key, data))"
      using alertOf_Some(2) [OF a] eq by simp
    then have "kv = (key, data)"
      using distinct_map_eq [OF cs kv e] by simp
    then have "alertOf this db now data = Some al" using a by simp
    then show False using alertOf_high [OF high, of db now] by simp
  qed
qed

theorem monitored_snapshot_complete_witness:
  "position_store low_store \<and>
   (''aircraft:DLH401:position'', highC) \<in> set (hashes low_store) \<and>
   monitored highC \<and>
   MIN_SAFE_ALTITUDE_FT altitudeCheckService \<le> ph_altitude highC \<and>
   (\<exists>info. filter (\<lambda>i. ai_callsign i = ''DLH401'')
              (res_monitoredAircraft
                 (fst (checkLowAltitudeAircraft altitudeCheckService demo_graph (\<lambda>n. 0) low_store)))
            = [info] \<and> ai_altitude info = 5000 \<and> ai_inAirportZone info) \<and>
   filter (\<lambda>al. aa_callsign al = ''DLH401'')
     (res_alerts (fst (checkLowAltitudeAircraft altitudeCheckService demo_graph (\<lambda>n. 0) low_store)))
   = []"
proof -
  have e: "(''aircraft:DLH401:position'', highC) \<in> set (hashes low_store)"
    by (simp add: low_store_def)
  have m: "monitored highC" by (simp add: monitored_def highC_def)
  have high: "MIN_SAFE_ALTITUDE_FT altitudeCheckService \<le> ph_altitude highC"
    by (simp add: highC_def altitudeCheckService_def)
  have inz: "in_zone demo_graph (ph_latitude highC) (ph_longitude highC)"
    using centre_inside by (simp add: highC_def)
  let ?run = "checkLowAltitudeAircraft altitudeCheckService demo_graph (\<lambda>n. 0) low_store"
  have cs: "ph_callsign highC = ''DLH401''" and al: "ph_altitude highC = 5000"
    by (simp_all add: highC_def)
  note t = monitored_snapshot_complete [OF low_store_ok e m, of altitudeCheckService demo_graph
      "\<lambda>n. 0"]
  from t inz obtain info where
    "filter (\<lambda>i. ai_callsign i = ph_callsign highC) (res_monitoredAircraft (fst ?run)) = [info]"
    "ai_altitude info = ph_altitude highC" "ai_inAirportZone info"
    by blast
  then have one: "\<exists>info. filter (\<lambda>i. ai_callsign i = ''DLH401'')
                           (res_monitoredAircraft (fst ?run)) = [info] \<and>
                         ai_altitude info = 5000 \<and> ai_inAirportZone info"
    unfolding cs al by blast
  from t high have "\<forall>al \<in> set (res_alerts (fst ?run)). aa_callsign al \<noteq> ph_callsign highC"
    by blast
  then have none: "filter (\<lambda>al. aa_callsign al = ''DLH401'') (res_alerts (fst ?run)) = []"
    unfolding cs by (simp add: filter_empty_conv)
  from low_store_ok e m high one none show ?thesis by blast
qed

section \<open>Alert ledger and flight monitor: the claims\<close>

text \<open>
  C7, as the specification states it for every category, fails for the altitude category:
  after 150 calls of the altitude \<^verbatim>\<open>storeAlert\<close>, the active-alert query of the altitude
  service returns no alert where the store holds no low aircraft, not the 100 alerts inserted
  last, because it runs the check again and never reads its list.
\<close>

theorem altitude_active_query_ignores_list:
  "res_alerts (fst (altitude_getActiveAlerts altitudeCheckService demo_graph clock_zero
      (foldl altitude_storeAlert scenario_store (map numbered_altitude_alert [0..<150])))) = [] \<and>
   res_alerts (fst (altitude_getActiveAlerts altitudeCheckService demo_graph clock_zero
      (foldl altitude_storeAlert scenario_store (map numbered_altitude_alert [0..<150]))))
   \<noteq> take 100 (rev (map numbered_altitude_alert [0..<150]))"
proof -
  let ?st = "foldl altitude_storeAlert scenario_store (map numbered_altitude_alert [0..<150])"
  have h: "hashes ?st = hashes scenario_store" by (rule hashes_foldl_altitude_storeAlert)
  have store: "position_store ?st"
    using scenario_store_ok by (simp add: position_store_def h)
  have "res_alerts (fst (checkLowAltitudeAircraft altitudeCheckService demo_graph clock_zero ?st))
        = altitudeAlerts altitudeCheckService demo_graph clock_zero 0
            (map (\<lambda>kv. Some (snd kv)) (hashes scenario_store))"
    unfolding position_store_alerts [OF store] h ..
  also have "\<dots> = []"
    by (simp add: scenario_store_def alertOf_high scenarioA_def scenarioB_def
        altitudeCheckService_def)
  finally have none:
    "res_alerts (fst (altitude_getActiveAlerts altitudeCheckService demo_graph clock_zero ?st)) = []"
    by (simp add: altitude_getActiveAlerts_def)
  have "take 100 (rev (map numbered_altitude_alert [0..<150])) \<noteq> []"
    unfolding most_recent_of_150 by simp
  with none show ?thesis by simp
qed

text \<open>
  C7, amended. The active list of the collision category is pushed at the front and trimmed
  to 100: after more than 100 calls of the collision \<^verbatim>\<open>storeAlert\<close>, from any store,
  \<^verbatim>\<open>getActiveAlerts\<close> of the collision service returns exactly the 100 alerts inserted last,
  the most recent first, in the order of insertion and with no sorting by timestamp.
\<close>

theorem active_alerts_most_recent_100:
  assumes "100 < length cs"
  shows "collision_getActiveAlerts (foldl collision_storeAlert r cs)
           = map CollisionJson (take 100 (rev cs))"
proof -
  have "100 \<le> length cs" using assms by simp
  then have "lists (foldl collision_storeAlert r cs) ''alerts:collision:active''
             = map CollisionJson (take 100 (rev cs))"
    by (rule push_front_most_recent
        [of "\<lambda>r. lists r ''alerts:collision:active''" collision_storeAlert CollisionJson,
          OF collision_storeAlert_list])
  then show ?thesis
    by (simp add: collision_getActiveAlerts_def redis_lRange_def redis_range_all)
qed

theorem active_alerts_most_recent_100_witness:
  "100 < length (map numbered_collision_alert [0..<150]) \<and>
   collision_getActiveAlerts
     (foldl collision_storeAlert scenario_store (map numbered_collision_alert [0..<150]))
   = map CollisionJson (map numbered_collision_alert (rev [50..<150]))"
proof -
  have a: "100 < length (map numbered_collision_alert [0..<150])" by simp
  show ?thesis
    using active_alerts_most_recent_100 [OF a, of scenario_store] a
    by (simp only: most_recent_of_150)
qed

text \<open>
  C8, as the specification states it, fails twice. With no live position key and a schedule
  whose status is \<^verbatim>\<open>delayed\<close>, the view that \<^verbatim>\<open>getFlightDetails\<close> returns does not have the
  status \<^verbatim>\<open>scheduled\<close>. And the identifier \<^verbatim>\<open>DLH4\<close>, which has a schedule and no position
  entry of its own, gets the live view of \<^verbatim>\<open>DLH400\<close>, because the scan
  \<^verbatim>\<open>aircraft:DLH4*:position\<close> finds the key of that aircraft.
\<close>

theorem flight_details_claim_fails:
  "redis_keys scenario_store ''aircraft:LH123*:position'' = [] \<and>
   getFlightSchedule demo_mongo ''LH123'' = Some delayed_schedule \<and>
   getFlightDetails scenario_store demo_graph demo_mongo ''LH123''
     \<noteq> Some (ScheduleDetails ''LH123'' ''scheduled'' delayed_schedule) \<and>
   redis_hGetAll scenario_store ''aircraft:DLH4:position'' = None \<and>
   getFlightSchedule demo_mongo ''DLH4'' = Some dlh4_schedule \<and>
   getFlightDetails scenario_store demo_graph demo_mongo ''DLH4''
     = Some (LiveDetails (liveView demo_graph demo_mongo scenarioA))"
proof (intro conjI)
  show "redis_keys scenario_store ''aircraft:LH123*:position'' = []"
    by (rule scenario_scan_none)
  show "getFlightSchedule demo_mongo ''LH123'' = Some delayed_schedule"
    by (rule demo_schedule_lookup)
  show "getFlightDetails scenario_store demo_graph demo_mongo ''LH123''
          \<noteq> Some (ScheduleDetails ''LH123'' ''scheduled'' delayed_schedule)"
    using scenario_scan_none(1)
    by (simp add: getFlightDetails_def demo_schedule_lookup or_default_def delayed_schedule_def)
  show "redis_hGetAll scenario_store ''aircraft:DLH4:position'' = None"
    by (simp add: redis_hGetAll_def scenario_store_def)
  show "getFlightSchedule demo_mongo ''DLH4'' = Some dlh4_schedule"
    by (rule demo_schedule_lookup_others)
  show "getFlightDetails scenario_store demo_graph demo_mongo ''DLH4''
          = Some (LiveDetails (liveView demo_graph demo_mongo scenarioA))"
    using scenario_scan_DLH4
    by (simp add: getFlightDetails_def redis_hGetAll_def scenario_store_def)
qed

text \<open>
  C8, amended. For an identifier for which the scan \<^verbatim>\<open>aircraft:<identifier>*:position\<close> of
  the live position keys finds no key, \<^verbatim>\<open>getFlightDetails\<close> returns the schedule-only view
  when a schedule matches the identifier: no position, the schedule, and as status the
  schedule's own status when it has a non-empty one, \<^verbatim>\<open>scheduled\<close> otherwise. When no
  schedule matches either, it returns \<^verbatim>\<open>null\<close>.
\<close>

theorem flight_details_schedule_fallback:
  assumes "redis_keys r (''aircraft:'' @ flightNumber @ ''*:position'') = []"
  shows "getFlightDetails r db mongo flightNumber =
           (case getFlightSchedule mongo flightNumber of
              None \<Rightarrow> None
            | Some schedule \<Rightarrow>
                Some (ScheduleDetails flightNumber
                        (case s_status schedule of
                           None \<Rightarrow> ''scheduled''
                         | Some status \<Rightarrow> if status = [] then ''scheduled'' else status)
                        schedule))"
  using assms
  by (simp add: getFlightDetails_def or_default_def split: option.splits)

theorem flight_details_schedule_fallback_witness:
  "redis_keys scenario_store (''aircraft:'' @ ''LH123'' @ ''*:position'') = [] \<and>
   getFlightDetails scenario_store demo_graph demo_mongo ''LH123''
     = Some (ScheduleDetails ''LH123'' ''delayed'' delayed_schedule) \<and>
   redis_keys scenario_store (''aircraft:'' @ ''XX999'' @ ''*:position'') = [] \<and>
   getFlightDetails scenario_store demo_graph demo_mongo ''XX999'' = None"
proof -
  have a: "redis_keys scenario_store (''aircraft:'' @ ''LH123'' @ ''*:position'') = []"
    and b: "redis_keys scenario_store (''aircraft:'' @ ''XX999'' @ ''*:position'') = []"
    using scenario_scan_none by simp_all
  show ?thesis
    using flight_details_schedule_fallback [OF a, of demo_graph demo_mongo]
      flight_details_schedule_fallback [OF b, of demo_graph demo_mongo] a b
    by (simp add: demo_schedule_lookup demo_schedule_lookup_others delayed_schedule_def)
qed

text \<open>
  C10. The counts of \<^verbatim>\<open>getSummary\<close> partition their totals: in flight plus on ground is the
  number of live flights, occupied plus available is the number of gate records, and a gate
  record counts as occupied exactly when its \<^verbatim>\<open>occupiedBy\<close> is set.
\<close>

theorem summary_counts_partition:
  "inFlight (getSummary r db mongo now) + onGround (getSummary r db mongo now)
     = totalFlights (getSummary r db mongo now) \<and>
   occupiedGates (getSummary r db mongo now) + availableGates (getSummary r db mongo now)
     = totalGates (getSummary r db mongo now) \<and>
   totalGates (getSummary r db mongo now) = length (gate_records db) \<and>
   occupiedGates (getSummary r db mongo now)
     = length (filter (\<lambda>record. truthy (gr_occupiedBy record)) (gate_records db))"
proof (intro conjI)
  have f: "length (filter (\<lambda>x. \<not> P x) xs) + length (filter P xs) = length xs"
    for P :: "'a \<Rightarrow> bool" and xs
    using sum_length_filter_compl [of P xs] by simp
  show "inFlight (getSummary r db mongo now) + onGround (getSummary r db mongo now)
          = totalFlights (getSummary r db mongo now)"
    by (simp add: getSummary_def Let_def f)
  show "occupiedGates (getSummary r db mongo now) + availableGates (getSummary r db mongo now)
          = totalGates (getSummary r db mongo now)"
    by (simp add: getSummary_def Let_def sum_length_filter_compl)
  show "totalGates (getSummary r db mongo now) = length (gate_records db)"
    by (simp add: getSummary_def Let_def getGateStatus_def)
  show "occupiedGates (getSummary r db mongo now)
          = length (filter (\<lambda>record. truthy (gr_occupiedBy record)) (gate_records db))"
    by (simp add: getSummary_def Let_def getGateStatus_def filter_map comp_def)
qed

end
